theory Spec2Isabelle
  imports Main "HOL-Library.Word" "HOL-Library.Sublist"
begin

section \<open>JavaScript strings\<close>

text \<open>
  A JavaScript string is a sequence of UTF-16 code units, and \<open>length\<close>, \<open>substring\<close>,
  \<open>startsWith\<close>, \<open>includes\<close> and \<open>split\<close> all work on code units. The box-drawing glyphs of
  the formatters (U+2500 and up) and the ellipsis U+2026 are one code unit each.
\<close>

type_synonym jstring = "16 word list"

definition ascii :: "string \<Rightarrow> jstring" where
  "ascii s = map of_char s"

definition NL :: "16 word" where "NL = 0x0A"
definition SP :: "16 word" where "SP = 0x20"

text \<open>\<open>s.split(c)\<close> for a one-unit separator: never empty, \<open>''.split(c)\<close> is \<open>['']\<close>.\<close>

fun split_on :: "'a \<Rightarrow> 'a list \<Rightarrow> 'a list list" where
  "split_on c [] = [[]]"
| "split_on c (x # xs) =
     (if x = c then [] # split_on c xs
      else (case split_on c xs of l # ls \<Rightarrow> (x # l) # ls | [] \<Rightarrow> [[x]]))"

text \<open>\<open>ls.join(c)\<close> for a one-unit separator.\<close>

fun join_with :: "'a \<Rightarrow> 'a list list \<Rightarrow> 'a list" where
  "join_with c [] = []"
| "join_with c [l] = l"
| "join_with c (l # l' # ls) = l @ c # join_with c (l' # ls)"

text \<open>\<open>s.includes(sub)\<close>: \<open>sub\<close> occurs in \<open>s\<close> as a contiguous run.\<close>

fun str_includes :: "'a list \<Rightarrow> 'a list \<Rightarrow> bool" where
  "str_includes sub [] = (sub = [])"
| "str_includes sub (x # xs) = (prefix sub (x # xs) \<or> str_includes sub xs)"

text \<open>
  The code units \<open>trim\<close> strips: ECMAScript's WhiteSpace and LineTerminator productions.
\<close>

definition js_whitespace :: "16 word \<Rightarrow> bool" where
  "js_whitespace c \<longleftrightarrow>
     c \<in> {0x09, 0x0A, 0x0B, 0x0C, 0x0D, 0x20, 0xA0, 0x1680,
          0x2000, 0x2001, 0x2002, 0x2003, 0x2004, 0x2005, 0x2006, 0x2007, 0x2008, 0x2009, 0x200A,
          0x2028, 0x2029, 0x202F, 0x205F, 0x3000, 0xFEFF}"

definition trim :: "jstring \<Rightarrow> jstring" where
  "trim s = rev (dropWhile js_whitespace (rev (dropWhile js_whitespace s)))"

text \<open>\<open>s.padEnd(w, ' ')\<close> and \<open>s.padStart(w, ' ')\<close>: no change when \<open>s\<close> is already \<open>w\<close> long.\<close>

definition padEnd :: "jstring \<Rightarrow> nat \<Rightarrow> jstring" where
  "padEnd s w = s @ replicate (w - length s) SP"

definition padStart :: "jstring \<Rightarrow> nat \<Rightarrow> jstring" where
  "padStart s w = replicate (w - length s) SP @ s"

section \<open>Section parser (\<open>parseContentSections\<close> of the StreamingText component)\<close>

datatype section_type = Text | Analysis | TableHeader | GraphTableHeader | Table | GraphTable

text \<open>
  The section under construction holds its lines as an array; a finished section holds them
  joined by newlines (\<open>{...currentSection, content: currentSection.content.join('\n')}\<close>).
\<close>

record current_section =
  ctype :: section_type
  clines :: "jstring list"

record content_section =
  stype :: section_type
  content :: jstring

record parser_state =
  sections :: "content_section list"
  currentSection :: current_section
  inTable :: bool

definition MARK_ANALYSIS :: jstring where
  "MARK_ANALYSIS = ascii ''=== ANALYSIS ===''"

definition MARK_ANALISIS :: jstring where
  "MARK_ANALISIS = ascii ''=== AN'' @ [0xC1] @ ascii ''LISIS ===''"

definition MARK_DATA_TABLE :: jstring where
  "MARK_DATA_TABLE = ascii ''=== DATA TABLE ===''"

definition MARK_TABLA_DE_DATOS :: jstring where
  "MARK_TABLA_DE_DATOS = ascii ''=== TABLA DE DATOS ===''"

definition MARK_GRAPH_DATA :: jstring where
  "MARK_GRAPH_DATA = ascii ''=== GRAPH DATA ===''"

definition NEO4J_GRAPH :: jstring where
  "NEO4J_GRAPH = ascii ''neo4j_graph''"

definition ROWS :: jstring where
  "ROWS = ascii ''rows''"

text \<open>
  The twelve glyphs the parser tests a line for, in the order of the source:
  U+250C, U+2502, U+2514, U+251C, U+253C, U+2524 (single line), U+255E, U+256A, U+2561
  (header separator), U+2554, U+2551, U+255A (double line).
\<close>

definition box_glyphs :: "16 word list" where
  "box_glyphs = [0x250C, 0x2502, 0x2514, 0x251C, 0x253C, 0x2524,
                 0x255E, 0x256A, 0x2561, 0x2554, 0x2551, 0x255A]"

definition has_box_glyph :: "jstring \<Rightarrow> bool" where
  "has_box_glyph line = list_ex (\<lambda>g. str_includes [g] line) box_glyphs"

definition finished :: "current_section \<Rightarrow> content_section" where
  "finished cur = \<lparr>stype = ctype cur, content = join_with NL (clines cur)\<rparr>"

text \<open>\<open>if (currentSection.content.length > 0) sections.push(...)\<close>\<close>

definition save_section :: "parser_state \<Rightarrow> content_section list" where
  "save_section st =
     (if length (clines (currentSection st)) > 0
      then sections st @ [finished (currentSection st)]
      else sections st)"

definition push_line :: "jstring \<Rightarrow> current_section \<Rightarrow> current_section" where
  "push_line line cur = cur\<lparr>clines := clines cur @ [line]\<rparr>"

text \<open>One iteration of \<open>for (const line of lines)\<close>, branch for branch.\<close>

definition parse_line :: "jstring \<Rightarrow> parser_state \<Rightarrow> jstring \<Rightarrow> parser_state" where
  "parse_line displayFormat st line =
    (if line = MARK_ANALYSIS \<or> line = MARK_ANALISIS then
       \<lparr>sections = save_section st,
        currentSection = \<lparr>ctype = Analysis, clines = [line]\<rparr>,
        inTable = False\<rparr>
     else if line = MARK_DATA_TABLE \<or> line = MARK_TABLA_DE_DATOS \<or> line = MARK_GRAPH_DATA then
       \<lparr>sections = save_section st,
        currentSection =
          \<lparr>ctype = (if displayFormat = NEO4J_GRAPH then GraphTableHeader else TableHeader),
           clines = [line]\<rparr>,
        inTable = True\<rparr>
     else if inTable st \<and> has_box_glyph line then
       (let tableType = (if displayFormat = NEO4J_GRAPH then GraphTable else Table);
            st' = (if ctype (currentSection st) \<noteq> tableType \<and> ctype (currentSection st) \<noteq> Table
                   then st\<lparr>sections := save_section st,
                           currentSection := \<lparr>ctype = tableType, clines = []\<rparr>\<rparr>
                   else st)
        in st'\<lparr>currentSection := push_line line (currentSection st')\<rparr>)
     else if inTable st \<and> ctype (currentSection st) = Table \<and> trim line \<noteq> []
             \<and> \<not> str_includes ROWS line then
       st\<lparr>currentSection := push_line line (currentSection st)\<rparr>
     else if inTable st \<and> str_includes ROWS line then
       \<lparr>sections = sections st @ [finished (push_line line (currentSection st))],
        currentSection = \<lparr>ctype = Text, clines = []\<rparr>,
        inTable = False\<rparr>
     else if inTable st \<and> ctype (currentSection st) = Table then
       \<lparr>sections = save_section st,
        currentSection = \<lparr>ctype = Analysis, clines = [line]\<rparr>,
        inTable = False\<rparr>
     else
       st\<lparr>currentSection := push_line line (currentSection st)\<rparr>)"

definition parser_init :: parser_state where
  "parser_init = \<lparr>sections = [], currentSection = \<lparr>ctype = Text, clines = []\<rparr>, inTable = False\<rparr>"

definition parseContentSections :: "jstring \<Rightarrow> jstring \<Rightarrow> content_section list" where
  "parseContentSections displayFormat text =
     (if text = [] then []
      else save_section (foldl (parse_line displayFormat) parser_init (split_on NL text)))"

text \<open>
  Bookkeeping for the parser's loop: the lines a state has taken in so far, read back from
  the finished sections and the section under construction.
\<close>

definition lines_of :: "parser_state \<Rightarrow> jstring list" where
  "lines_of st =
     concat (map (\<lambda>s. split_on NL (content s)) (sections st)) @ clines (currentSection st)"

definition newline_free :: "parser_state \<Rightarrow> bool" where
  "newline_free st \<longleftrightarrow> list_all (\<lambda>l. NL \<notin> set l) (clines (currentSection st))"

definition table_kind :: "section_type \<Rightarrow> bool" where
  "table_kind t \<longleftrightarrow> t \<in> {TableHeader, GraphTableHeader, Table, GraphTable}"

section \<open>Reveal engine (the \<open>useTypewriter\<close> hook)\<close>

text \<open>
  The hook's state: the three \<open>useState\<close> cells and the \<open>intervalRef\<close> cell. A live interval
  is recorded with the \<open>text\<close> its callback closed over; \<open>intervalRef.current\<close> is non-null
  exactly while an interval is live, since every \<open>clearInterval\<close> of the source is followed by
  \<open>intervalRef.current = null\<close> and \<open>setInterval\<close> is only called on a null ref.
  \<open>cleanupPending\<close> says whether the last run of the effect returned its cleanup function
  (the early returns of the effect return nothing). \<open>intervalsStarted\<close> and \<open>completions\<close>
  count the calls of \<open>setInterval\<close> and of \<open>onComplete\<close> made so far.
\<close>

record typewriter =
  displayText :: jstring
  isTyping :: bool
  currentIndex :: nat
  intervalRef :: "jstring option"
  cleanupPending :: bool
  intervalsStarted :: nat
  completions :: nat

definition typewriter_init :: typewriter where
  "typewriter_init =
     \<lparr>displayText = [], isTyping = False, currentIndex = 0, intervalRef = None,
      cleanupPending = False, intervalsStarted = 0, completions = 0\<rparr>"

definition TYPING_LAG_TOLERANCE :: int where "TYPING_LAG_TOLERANCE = 10"
definition MAX_INSTANT_CHARS :: nat where "MAX_INSTANT_CHARS = 10000"

text \<open>\<open>if (intervalRef.current) { clearInterval(intervalRef.current); intervalRef.current = null; }\<close>\<close>

definition clear_interval :: "typewriter \<Rightarrow> typewriter" where
  "clear_interval s = s\<lparr>intervalRef := None\<rparr>"

text \<open>\<open>if (!intervalRef.current) intervalRef.current = setInterval(..., safeSpeed)\<close>\<close>

definition start_interval :: "jstring \<Rightarrow> typewriter \<Rightarrow> typewriter" where
  "start_interval text s =
     (if intervalRef s = None
      then s\<lparr>intervalRef := Some text, intervalsStarted := intervalsStarted s + 1\<rparr>
      else s)"

definition isExtension :: "jstring \<Rightarrow> typewriter \<Rightarrow> bool" where
  "isExtension text s =
     (let isShrinking = length text < length (displayText s);
          typingLag = int (length (displayText s)) - int (currentIndex s);
          isTypingBehind = typingLag > TYPING_LAG_TOLERANCE
      in \<not> isShrinking \<and> length (displayText s) > 0 \<and> length text > length (displayText s)
         \<and> prefix (displayText s) text \<and> \<not> isTypingBehind)"

text \<open>The body of the effect, run with the \<open>text\<close>, \<open>displayText\<close> and \<open>currentIndex\<close> of the render.\<close>

definition effect :: "jstring \<Rightarrow> typewriter \<Rightarrow> typewriter" where
  "effect text s =
     (if text = [] then s\<lparr>isTyping := False, cleanupPending := False\<rparr>
      else if text = displayText s then s\<lparr>cleanupPending := False\<rparr>
      else if isExtension text s then s\<lparr>isTyping := True, cleanupPending := False\<rparr>
      else
        (let s1 = (if length text > MAX_INSTANT_CHARS
                   then s\<lparr>displayText := take MAX_INSTANT_CHARS text,
                          currentIndex := MAX_INSTANT_CHARS\<rparr>
                   else s\<lparr>displayText := [], currentIndex := 0\<rparr>);
             s2 = clear_interval (s1\<lparr>isTyping := True\<rparr>);
             s3 = start_interval text s2
         in s3\<lparr>cleanupPending := True\<rparr>))"

text \<open>
  \<open>advance\<close>: what React does when a dependency of the effect (\<open>text\<close>, \<open>displayText\<close>,
  \<open>currentIndex\<close>, ...) has changed: the cleanup returned by the previous run of the effect,
  if it returned one, and then the body again.
\<close>

definition advance :: "jstring \<Rightarrow> typewriter \<Rightarrow> typewriter" where
  "advance text s = effect text (if cleanupPending s then clear_interval s else s)"

text \<open>One firing of the interval callback; nothing fires when no interval is live.\<close>

definition tick :: "typewriter \<Rightarrow> typewriter" where
  "tick s =
     (case intervalRef s of
        None \<Rightarrow> s
      | Some text \<Rightarrow>
          if currentIndex s < length text
          then s\<lparr>displayText := take (currentIndex s + 1) text,
                 currentIndex := currentIndex s + 1\<rparr>
          else (clear_interval s)\<lparr>isTyping := False, completions := completions s + 1\<rparr>)"

definition skipTyping :: "jstring \<Rightarrow> typewriter \<Rightarrow> typewriter" where
  "skipTyping text s =
     (clear_interval s)\<lparr>displayText := text, currentIndex := length text, isTyping := False,
                        completions := completions s + 1\<rparr>"

section \<open>Streaming-text presenter (the \<open>StreamingText\<close> component)\<close>

definition isStructuredContent :: "jstring \<Rightarrow> bool" where
  "isStructuredContent contentProp \<longleftrightarrow>
     contentProp \<noteq> []
     \<and> (str_includes MARK_ANALYSIS contentProp \<or> str_includes MARK_DATA_TABLE contentProp)"

text \<open>
  What a render shows for the prop \<open>content\<close>: the text handed to \<open>formatText\<close> and whether
  the typing cursor is drawn. The hook is called on every render; for structured content its
  result is dropped.
\<close>

definition StreamingText :: "jstring \<Rightarrow> typewriter \<Rightarrow> jstring \<times> bool" where
  "StreamingText contentProp typewriterResult =
     (if isStructuredContent contentProp then (contentProp, False)
      else (displayText typewriterResult, isTyping typewriterResult))"

section \<open>Stream ingestion (\<open>searchStream\<close> of the API service)\<close>

text \<open>
  A decoded message. \<open>JSON.parse\<close> is the platform's and is taken as a parameter: a function
  from the payload text to the value, \<open>None\<close> where \<open>JSON.parse\<close> throws. An object lists its
  own properties, each key once. A number is kept as its literal; nothing here reads it.
\<close>

datatype json =
  JSNull
| JSBool bool
| JSNumber jstring
| JSString jstring
| JSArray "json list"
| JSObject "(jstring \<times> json) list"

text \<open>
  \<open>parsed.status === 'complete'\<close>. On \<open>null\<close> the property access throws inside the inner
  \<open>try\<close>, which only logs; on the other non-objects the property is undefined.
\<close>

fun status_complete :: "json \<Rightarrow> bool" where
  "status_complete (JSObject props) = (map_of props (ascii ''status'') = Some (JSString (ascii ''complete'')))"
| "status_complete _ = False"

text \<open>The calls made on the three callbacks, in order. The callbacks are taken not to throw.\<close>

datatype event = OnMessage json | OnError | OnComplete

text \<open>
  How the reads end after the last chunk: \<open>{done: true}\<close>, a rejection with an \<open>AbortError\<close>,
  or a rejection with any other error.
\<close>

datatype read_end = Done | Aborted | Failed

definition DATA_PREFIX :: jstring where
  "DATA_PREFIX = ascii ''data: ''"

text \<open>
  \<open>for (const line of lines)\<close>: the calls made, and whether the loop left the function through
  \<open>return\<close> on a complete status.
\<close>

fun process_lines :: "(jstring \<Rightarrow> json option) \<Rightarrow> jstring list \<Rightarrow> event list \<times> bool" where
  "process_lines parse [] = ([], False)"
| "process_lines parse (line # lines) =
     (if prefix DATA_PREFIX line \<and> trim (drop 6 line) \<noteq> [] then
        (case parse (drop 6 line) of
           None \<Rightarrow> process_lines parse lines
         | Some parsed \<Rightarrow>
             if status_complete parsed then ([OnMessage parsed, OnComplete], True)
             else (case process_lines parse lines of
                     (evs, returned) \<Rightarrow> (OnMessage parsed # evs, returned)))
      else process_lines parse lines)"

text \<open>
  \<open>while (true)\<close> of \<open>processStream\<close>, over the chunks the reader delivers (as decoded text)
  and the way the reads end. What is left in the buffer at the end is dropped.
\<close>

fun read_loop :: "(jstring \<Rightarrow> json option) \<Rightarrow> jstring \<Rightarrow> jstring list \<Rightarrow> read_end \<Rightarrow> event list" where
  "read_loop parse buffer [] fin =
     (case fin of Done \<Rightarrow> [OnComplete] | Aborted \<Rightarrow> [] | Failed \<Rightarrow> [OnError])"
| "read_loop parse buffer (chunk # chunks) fin =
     (case process_lines parse (butlast (split_on NL (buffer @ chunk))) of
        (evs, returned) \<Rightarrow>
          if returned then evs
          else evs @ read_loop parse (last (split_on NL (buffer @ chunk))) chunks fin)"

definition processStream :: "(jstring \<Rightarrow> json option) \<Rightarrow> jstring list \<Rightarrow> read_end \<Rightarrow> event list" where
  "processStream parse chunks fin = read_loop parse [] chunks fin"

text \<open>The three frame lines of the scenario, each newline-terminated, and their payloads.\<close>

definition PAYLOAD_A :: jstring where
  \<open>PAYLOAD_A = ascii ''{"text":"A"}''\<close>

definition PAYLOAD_AB :: jstring where
  \<open>PAYLOAD_AB = ascii ''{"text":"AB"}''\<close>

definition PAYLOAD_COMPLETE :: jstring where
  \<open>PAYLOAD_COMPLETE = ascii ''{"status":"complete"}''\<close>

definition scenario_frames :: jstring where
  "scenario_frames =
     DATA_PREFIX @ PAYLOAD_A @ [NL] @ DATA_PREFIX @ PAYLOAD_AB @ [NL]
     @ DATA_PREFIX @ PAYLOAD_COMPLETE @ [NL]"

definition MSG_A :: json where
  "MSG_A = JSObject [(ascii ''text'', JSString (ascii ''A''))]"

definition MSG_AB :: json where
  "MSG_AB = JSObject [(ascii ''text'', JSString (ascii ''AB''))]"

definition MSG_COMPLETE :: json where
  "MSG_COMPLETE = JSObject [(ascii ''status'', JSString (ascii ''complete''))]"

text \<open>\<open>JSON.parse\<close> on the three payloads of the scenario, the only ones parsed there.\<close>

definition scenario_parse :: "jstring \<Rightarrow> json option" where
  "scenario_parse payload =
     (if payload = PAYLOAD_A then Some MSG_A
      else if payload = PAYLOAD_AB then Some MSG_AB
      else if payload = PAYLOAD_COMPLETE then Some MSG_COMPLETE
      else None)"

definition is_OnMessage :: "event \<Rightarrow> bool" where
  "is_OnMessage e = (case e of OnMessage m \<Rightarrow> True | _ \<Rightarrow> False)"

definition end_events :: "read_end \<Rightarrow> event list" where
  "end_events fin = (case fin of Done \<Rightarrow> [OnComplete] | Aborted \<Rightarrow> [] | Failed \<Rightarrow> [OnError])"

section \<open>Table formatter (\<open>formatAsTable\<close>)\<close>

text \<open>
  A cell value: a number, a string, \<open>null\<close>, or \<open>undefined\<close> (also what \<open>row[header]\<close> gives
  for a key the row does not have). Numbers are an abstract type \<open>'n\<close>: what the formatter
  does with them goes through the platform (\<open>value % 1\<close>, \<open>toLocaleString\<close>), which is taken
  as a parameter.
\<close>

datatype 'n jsval = JNumber 'n | JString jstring | JNull | JUndefined

record 'n number_api =
  isInteger :: "'n \<Rightarrow> bool"
  toLocaleString :: "'n \<Rightarrow> jstring"
  toLocaleString2 :: "'n \<Rightarrow> jstring"

text \<open>
  \<open>isInteger x\<close> is \<open>x % 1 === 0\<close>; \<open>toLocaleString\<close> is \<open>x.toLocaleString('en-US')\<close> and
  \<open>toLocaleString2\<close> the same with exactly two fraction digits.

  A row is an object; its entries are listed in the order \<open>Object.keys\<close> gives them.
\<close>

type_synonym 'n row = "(jstring \<times> 'n jsval) list"

definition lookup :: "'n row \<Rightarrow> jstring \<Rightarrow> 'n jsval" where
  "lookup row header = (case map_of row header of None \<Rightarrow> JUndefined | Some v \<Rightarrow> v)"

definition BOX_topLeft :: "16 word" where "BOX_topLeft = 0x250C"
definition BOX_topRight :: "16 word" where "BOX_topRight = 0x2510"
definition BOX_bottomLeft :: "16 word" where "BOX_bottomLeft = 0x2514"
definition BOX_bottomRight :: "16 word" where "BOX_bottomRight = 0x2518"
definition BOX_horizontal :: "16 word" where "BOX_horizontal = 0x2500"
definition BOX_vertical :: "16 word" where "BOX_vertical = 0x2502"
definition BOX_topJoin :: "16 word" where "BOX_topJoin = 0x252C"
definition BOX_bottomJoin :: "16 word" where "BOX_bottomJoin = 0x2534"
definition BOX_doubleHorizontal :: "16 word" where "BOX_doubleHorizontal = 0x2550"
definition BOX_headerLeftJoin :: "16 word" where "BOX_headerLeftJoin = 0x255E"
definition BOX_headerRightJoin :: "16 word" where "BOX_headerRightJoin = 0x2561"
definition BOX_headerCross :: "16 word" where "BOX_headerCross = 0x256A"

text \<open>\<open>String(n)\<close> for a non-negative integer: its decimal digits.\<close>

fun decimal :: "nat \<Rightarrow> jstring" where
  "decimal n = (if n < 10 then [of_nat (48 + n)] else decimal (n div 10) @ [of_nat (48 + n mod 10)])"

declare decimal.simps [simp del]

definition formatNumber :: "'n number_api \<Rightarrow> 'n jsval \<Rightarrow> jstring" where
  "formatNumber api v =
     (case v of
        JNumber x \<Rightarrow> if \<not> isInteger api x then toLocaleString2 api x else toLocaleString api x
      | JString s \<Rightarrow> s
      | JNull \<Rightarrow> ascii ''null''
      | JUndefined \<Rightarrow> ascii ''undefined'')"

text \<open>
  \<open>!isNaN(parseFloat(s))\<close> for a string: after leading white space and an optional sign,
  \<open>parseFloat\<close> finds a number exactly when the text goes on with \<open>Infinity\<close>, a digit, or a
  dot and a digit.
\<close>

definition is_digit :: "16 word \<Rightarrow> bool" where
  "is_digit c \<longleftrightarrow> 0x30 \<le> c \<and> c \<le> 0x39"

definition parses_as_number :: "jstring \<Rightarrow> bool" where
  "parses_as_number s =
     (let t = dropWhile js_whitespace s;
          u = (case t of [] \<Rightarrow> [] | c # r \<Rightarrow> if c = 0x2B \<or> c = 0x2D then r else t)
      in prefix (ascii ''Infinity'') u
         \<or> (case u of
               [] \<Rightarrow> False
             | d # r \<Rightarrow> is_digit d \<or> (d = 0x2E \<and> (case r of [] \<Rightarrow> False | e # r' \<Rightarrow> is_digit e))))"

text \<open>\<open>typeof value === 'number' || !isNaN(parseFloat(value))\<close>\<close>

definition isNumeric :: "'n jsval \<Rightarrow> bool" where
  "isNumeric v =
     (case v of
        JNumber x \<Rightarrow> True
      | JString s \<Rightarrow> parses_as_number s
      | JNull \<Rightarrow> False
      | JUndefined \<Rightarrow> False)"

definition padCell :: "jstring \<Rightarrow> nat \<Rightarrow> bool \<Rightarrow> jstring" where
  "padCell v width alignRight = (if alignRight then padStart v width else padEnd v width)"

text \<open>\<open>Object.keys(data[0])\<close>\<close>

definition headers_of :: "'n row list \<Rightarrow> jstring list" where
  "headers_of data = (case data of [] \<Rightarrow> [] | row # rest \<Rightarrow> map fst row)"

text \<open>The two \<open>data.forEach\<close> accumulations of a column: its width and its alignment.\<close>

definition colWidths :: "'n number_api \<Rightarrow> 'n row list \<Rightarrow> jstring \<Rightarrow> nat" where
  "colWidths api data header =
     foldl (\<lambda>w row. min (max w (length (formatNumber api (lookup row header)))) 40)
       (length header) data"

definition colAlignments :: "'n row list \<Rightarrow> jstring \<Rightarrow> bool" where
  "colAlignments data header =
     foldl (\<lambda>hasNumbers row.
              if hasNumbers \<and> lookup row header \<noteq> JNull \<and> lookup row header \<noteq> JUndefined
              then hasNumbers \<and> isNumeric (lookup row header)
              else hasNumbers)
       True data"

text \<open>
  A border: per column \<open>fill.repeat(width + 2)\<close>, then the join glyph, or the closing glyph
  after the last column.
\<close>

fun border_columns :: "16 word \<Rightarrow> 16 word \<Rightarrow> 16 word \<Rightarrow> nat list \<Rightarrow> jstring" where
  "border_columns fill join close [] = []"
| "border_columns fill join close [w] = replicate (w + 2) fill @ [close]"
| "border_columns fill join close (w # w' # ws) =
     replicate (w + 2) fill @ [join] @ border_columns fill join close (w' # ws)"

definition topBorder :: "'n number_api \<Rightarrow> 'n row list \<Rightarrow> jstring" where
  "topBorder api data =
     BOX_topLeft # border_columns BOX_horizontal BOX_topJoin BOX_topRight
       (map (colWidths api data) (headers_of data))"

definition headerCell :: "'n number_api \<Rightarrow> 'n row list \<Rightarrow> jstring \<Rightarrow> jstring" where
  "headerCell api data header =
     [SP] @ padCell header (colWidths api data header) False @ [SP] @ [BOX_vertical]"

definition headerRow :: "'n number_api \<Rightarrow> 'n row list \<Rightarrow> jstring" where
  "headerRow api data = BOX_vertical # concat (map (headerCell api data) (headers_of data))"

definition headerSeparator :: "'n number_api \<Rightarrow> 'n row list \<Rightarrow> jstring" where
  "headerSeparator api data =
     BOX_headerLeftJoin # border_columns BOX_doubleHorizontal BOX_headerCross BOX_headerRightJoin
       (map (colWidths api data) (headers_of data))"

text \<open>The text of a data cell before padding: empty for null and undefined, cut at 40.\<close>

definition cellValue :: "'n number_api \<Rightarrow> 'n jsval \<Rightarrow> jstring" where
  "cellValue api rawValue =
     (let v = (if rawValue = JNull \<or> rawValue = JUndefined then [] else formatNumber api rawValue)
      in if length v > 40 then take 37 v @ ascii ''...'' else v)"

definition dataCell :: "'n number_api \<Rightarrow> 'n row list \<Rightarrow> 'n row \<Rightarrow> jstring \<Rightarrow> jstring" where
  "dataCell api data row header =
     [SP] @ padCell (cellValue api (lookup row header)) (colWidths api data header)
              (colAlignments data header)
     @ [SP] @ [BOX_vertical]"

definition dataRow :: "'n number_api \<Rightarrow> 'n row list \<Rightarrow> 'n row \<Rightarrow> jstring" where
  "dataRow api data row = BOX_vertical # concat (map (dataCell api data row) (headers_of data))"

text \<open>\<open>data.slice(0, 100).forEach(...)\<close>\<close>

definition dataRows :: "'n number_api \<Rightarrow> 'n row list \<Rightarrow> jstring list" where
  "dataRows api data = map (dataRow api data) (take 100 data)"

definition bottomBorder :: "'n number_api \<Rightarrow> 'n row list \<Rightarrow> jstring" where
  "bottomBorder api data =
     BOX_bottomLeft # border_columns BOX_horizontal BOX_bottomJoin BOX_bottomRight
       (map (colWidths api data) (headers_of data))"

definition rowCountText :: "'n row list \<Rightarrow> jstring" where
  "rowCountText data =
     (if length data > 100 then decimal (length data) @ ascii '' rows (showing first 100)''
      else decimal (length data) @ ascii '' row'' @ (if length data = 1 then [] else ascii ''s''))"

definition centeredRowCount :: "'n number_api \<Rightarrow> 'n row list \<Rightarrow> jstring" where
  "centeredRowCount api data =
     (let tableWidth = length (topBorder api data);
          padding = nat (max 0 ((int tableWidth - int (length (rowCountText data))) div 2))
      in replicate padding SP @ rowCountText data)"

definition tableLines :: "'n number_api \<Rightarrow> 'n row list \<Rightarrow> jstring list" where
  "tableLines api data =
     [topBorder api data, headerRow api data, headerSeparator api data]
     @ dataRows api data
     @ [bottomBorder api data]
     @ [centeredRowCount api data]"

definition formatAsTable :: "'n number_api \<Rightarrow> 'n row list \<Rightarrow> jstring" where
  "formatAsTable api data =
     (if data = [] then ascii ''No data available'' else join_with NL (tableLines api data))"

text \<open>
  The platform's number functions on the non-negative integers: every value is an integer,
  and the \<open>en-US\<close> rendering groups the decimal digits in threes with commas.
\<close>

fun grouped :: "nat \<Rightarrow> jstring" where
  "grouped n =
     (if n < 1000 then decimal n
      else grouped (n div 1000)
           @ [0x2C, of_nat (48 + n mod 1000 div 100), of_nat (48 + n mod 100 div 10),
              of_nat (48 + n mod 10)])"

declare grouped.simps [simp del]

definition nat_number_api :: "nat number_api" where
  "nat_number_api =
     \<lparr>isInteger = (\<lambda>n. True), toLocaleString = grouped,
      toLocaleString2 = (\<lambda>n. grouped n @ ascii ''.00'')\<rparr>"

text \<open>
  The condition on the input under which no line of the table holds a newline: none in a
  header, none in the text of a cell of the first 100 rows.
\<close>

definition newline_free_table :: "'n number_api \<Rightarrow> 'n row list \<Rightarrow> bool" where
  "newline_free_table api data \<longleftrightarrow>
     list_all (\<lambda>h. NL \<notin> set h) (headers_of data)
     \<and> list_all (\<lambda>row. list_all (\<lambda>h. NL \<notin> set (formatNumber api (lookup row h))) (headers_of data))
         (take 100 data)"

section \<open>Graph table formatter (\<open>formatAsGraphTable\<close>)\<close>

text \<open>
  A node as it arrives: any field may be missing. \<open>properties\<close> and \<open>relationships\<close> are arrays
  of display lines.
\<close>

record graph_node =
  node_id :: "jstring option"
  labels :: "jstring option"
  name :: "jstring option"
  properties :: "jstring list option"
  relationships :: "jstring list option"

datatype column_key = Key_node_id | Key_labels | Key_name | Key_properties | Key_relationships

definition NEO4J_doubleVertical :: "16 word" where "NEO4J_doubleVertical = 0x2551"
definition NEO4J_topLeft :: "16 word" where "NEO4J_topLeft = 0x2554"
definition NEO4J_topRight :: "16 word" where "NEO4J_topRight = 0x2557"
definition NEO4J_bottomLeft :: "16 word" where "NEO4J_bottomLeft = 0x255A"
definition NEO4J_bottomRight :: "16 word" where "NEO4J_bottomRight = 0x255D"
definition NEO4J_doubleHorizontal :: "16 word" where "NEO4J_doubleHorizontal = 0x2550"
definition NEO4J_doubleTopJoin :: "16 word" where "NEO4J_doubleTopJoin = 0x2564"
definition NEO4J_doubleBottomJoin :: "16 word" where "NEO4J_doubleBottomJoin = 0x2567"
definition NEO4J_doubleLeftJoin :: "16 word" where "NEO4J_doubleLeftJoin = 0x255F"
definition NEO4J_doubleRightJoin :: "16 word" where "NEO4J_doubleRightJoin = 0x2562"
definition NEO4J_doubleCross :: "16 word" where "NEO4J_doubleCross = 0x256A"
definition NEO4J_horizontal :: "16 word" where "NEO4J_horizontal = 0x2500"
definition NEO4J_vertical :: "16 word" where "NEO4J_vertical = 0x2502"
definition NEO4J_leftJoin :: "16 word" where "NEO4J_leftJoin = 0x251C"
definition NEO4J_rightJoin :: "16 word" where "NEO4J_rightJoin = 0x2524"
definition NEO4J_cross :: "16 word" where "NEO4J_cross = 0x253C"
definition ELLIPSIS :: "16 word" where "ELLIPSIS = 0x2026"

text \<open>\<open>x || d\<close> for an optional string: a missing and an empty string both give \<open>d\<close>.\<close>

definition or_default :: "jstring option \<Rightarrow> jstring \<Rightarrow> jstring" where
  "or_default x d = (case x of None \<Rightarrow> d | Some s \<Rightarrow> if s = [] then d else s)"

definition getNodeValue :: "graph_node \<Rightarrow> column_key \<Rightarrow> jstring" where
  "getNodeValue node key =
     (case key of
        Key_node_id \<Rightarrow> or_default (node_id node) []
      | Key_labels \<Rightarrow> or_default (labels node) (ascii ''[:Node]'')
      | Key_name \<Rightarrow> or_default (name node) []
      | Key_properties \<Rightarrow>
          (case properties node of None \<Rightarrow> [] | Some ps \<Rightarrow> if length ps > 0 then hd ps else [])
      | Key_relationships \<Rightarrow>
          (case relationships node of None \<Rightarrow> [] | Some rs \<Rightarrow> if length rs > 0 then hd rs else []))"

text \<open>The four columns: key and header. The initial widths of the source are overwritten.\<close>

definition columns :: "(column_key \<times> jstring) list" where
  "columns =
     [(Key_labels, ascii ''Labels''), (Key_name, ascii ''Name''),
      (Key_properties, ascii ''Properties''), (Key_relationships, ascii ''Relationships'')]"

text \<open>\<open>Math.max(col.header.length, ...graphNodes.map(node => getNodeValue(node, col.key).length)) + 2\<close>\<close>

definition col_width :: "graph_node list \<Rightarrow> column_key \<times> jstring \<Rightarrow> nat" where
  "col_width graphNodes col =
     fold max (map (\<lambda>node. length (getNodeValue node (fst col))) graphNodes) (length (snd col)) + 2"

definition padString :: "jstring \<Rightarrow> nat \<Rightarrow> jstring" where
  "padString str width =
     (if length str > width then take (width - 1) str @ [ELLIPSIS] else padEnd str width)"

text \<open>\<open>xs?.length || 1\<close>\<close>

definition length_or_1 :: "jstring list option \<Rightarrow> nat" where
  "length_or_1 xs = (case xs of None \<Rightarrow> 1 | Some l \<Rightarrow> if length l = 0 then 1 else length l)"

definition maxLines :: "graph_node \<Rightarrow> nat" where
  "maxLines node = max (length_or_1 (properties node)) (length_or_1 (relationships node))"

text \<open>\<open>xs[i] || ''\<close>: past the end of the array the read is undefined.\<close>

definition entry :: "jstring list \<Rightarrow> nat \<Rightarrow> jstring" where
  "entry xs i = (if i < length xs then xs ! i else [])"

text \<open>The value a column shows on line \<open>lineIndex\<close> of a node.\<close>

definition line_value :: "graph_node \<Rightarrow> nat \<Rightarrow> column_key \<Rightarrow> jstring" where
  "line_value node lineIndex key =
     (if lineIndex = 0 \<and> (key = Key_node_id \<or> key = Key_labels \<or> key = Key_name)
      then getNodeValue node key
      else if key = Key_properties \<and> properties node \<noteq> None
      then entry (the (properties node)) lineIndex
      else if key = Key_relationships \<and> relationships node \<noteq> None
      then entry (the (relationships node)) lineIndex
      else [])"

text \<open>
  A row of cells between double bars: each cell is written with a single bar after it, and the
  last single bar is then replaced (\<open>table.slice(0, -1) + doubleVertical\<close>). The row is given
  without its final newline.
\<close>

definition graph_row :: "graph_node list \<Rightarrow> (column_key \<times> jstring \<Rightarrow> jstring) \<Rightarrow> jstring" where
  "graph_row graphNodes val =
     butlast (NEO4J_doubleVertical #
              concat (map (\<lambda>col. [SP] @ padString (val col) (col_width graphNodes col - 2)
                                   @ [SP] @ [NEO4J_vertical]) columns))
     @ [NEO4J_doubleVertical]"

text \<open>
  The same row written out for the four columns, to state what a line of a node shows: the four
  values, each padded or cut to its column, between the bars.
\<close>

definition cell_width :: "graph_node list \<Rightarrow> column_key \<Rightarrow> jstring \<Rightarrow> nat" where
  "cell_width graphNodes key header = col_width graphNodes (key, header) - 2"

definition graph_cells :: "graph_node list \<Rightarrow> jstring \<Rightarrow> jstring \<Rightarrow> jstring \<Rightarrow> jstring \<Rightarrow> jstring" where
  "graph_cells graphNodes labelsCell nameCell propertyCell relationshipCell =
     [NEO4J_doubleVertical, SP]
     @ padString labelsCell (cell_width graphNodes Key_labels (ascii ''Labels''))
     @ [SP, NEO4J_vertical, SP]
     @ padString nameCell (cell_width graphNodes Key_name (ascii ''Name''))
     @ [SP, NEO4J_vertical, SP]
     @ padString propertyCell (cell_width graphNodes Key_properties (ascii ''Properties''))
     @ [SP, NEO4J_vertical, SP]
     @ padString relationshipCell
         (cell_width graphNodes Key_relationships (ascii ''Relationships''))
     @ [SP, NEO4J_doubleVertical]"

text \<open>\<open>for (let lineIndex = 0; lineIndex < maxLines; lineIndex++)\<close>: the lines of one node.\<close>

definition node_lines :: "graph_node list \<Rightarrow> graph_node \<Rightarrow> jstring list" where
  "node_lines graphNodes node =
     map (\<lambda>lineIndex. graph_row graphNodes (\<lambda>col. line_value node lineIndex (fst col)))
       [0..<maxLines node]"

text \<open>A horizontal rule: per column \<open>fill.repeat(col.width)\<close>, a join glyph between columns.\<close>

fun rule_columns :: "16 word \<Rightarrow> 16 word \<Rightarrow> nat list \<Rightarrow> jstring" where
  "rule_columns fill join [] = []"
| "rule_columns fill join [w] = replicate w fill"
| "rule_columns fill join (w # w' # ws) = replicate w fill @ [join] @ rule_columns fill join (w' # ws)"

definition graph_rule :: "16 word \<Rightarrow> 16 word \<Rightarrow> 16 word \<Rightarrow> 16 word \<Rightarrow> graph_node list \<Rightarrow> jstring" where
  "graph_rule left fill join right graphNodes =
     [left] @ rule_columns fill join (map (col_width graphNodes) columns) @ [right]"

text \<open>
  \<open>graphNodes.forEach((node, rowIndex) => ...)\<close>: the lines of each node, and a separator
  after every node but the last. Every line is written with its newline.
\<close>

fun node_blocks :: "graph_node list \<Rightarrow> graph_node list \<Rightarrow> jstring" where
  "node_blocks graphNodes [] = []"
| "node_blocks graphNodes [node] = concat (map (\<lambda>l. l @ [NL]) (node_lines graphNodes node))"
| "node_blocks graphNodes (node # node' # rest) =
     concat (map (\<lambda>l. l @ [NL]) (node_lines graphNodes node))
     @ graph_rule NEO4J_leftJoin NEO4J_horizontal NEO4J_cross NEO4J_rightJoin graphNodes @ [NL]
     @ node_blocks graphNodes (node' # rest)"

text \<open>
  The fallback reads the data as plain rows; its result on the same data
  (\<open>formatAsRegularTable(data)\<close>) is passed in as \<open>regularTable\<close>.
\<close>

definition formatAsGraphTable :: "jstring \<Rightarrow> graph_node list \<Rightarrow> jstring option \<Rightarrow> jstring" where
  "formatAsGraphTable regularTable graphNodes display_format =
     (if display_format \<noteq> Some NEO4J_GRAPH \<or> length graphNodes = 0 then regularTable
      else
        graph_rule NEO4J_topLeft NEO4J_doubleHorizontal NEO4J_doubleTopJoin NEO4J_topRight
          graphNodes @ [NL]
        @ graph_row graphNodes (\<lambda>col. snd col) @ [NL]
        @ graph_rule NEO4J_doubleLeftJoin NEO4J_doubleHorizontal NEO4J_doubleCross
            NEO4J_doubleRightJoin graphNodes @ [NL]
        @ node_blocks graphNodes graphNodes
        @ graph_rule NEO4J_bottomLeft NEO4J_doubleHorizontal NEO4J_doubleBottomJoin
            NEO4J_bottomRight graphNodes @ [NL]
        @ [NL] @ ascii ''('' @ decimal (length graphNodes) @ ascii '' nodes)'' @ [NL])"

text \<open>
  The lines of the graph table, to state where the lines of a node end up in the output: the
  top border, the header row and its separator, the lines of the nodes with a separator line
  between two nodes, the bottom border, an empty line and the node count.
\<close>

fun block_lines :: "graph_node list \<Rightarrow> graph_node list \<Rightarrow> jstring list" where
  "block_lines graphNodes [] = []"
| "block_lines graphNodes [node] = node_lines graphNodes node"
| "block_lines graphNodes (node # node' # rest) =
     node_lines graphNodes node
     @ [graph_rule NEO4J_leftJoin NEO4J_horizontal NEO4J_cross NEO4J_rightJoin graphNodes]
     @ block_lines graphNodes (node' # rest)"

definition graph_lines :: "graph_node list \<Rightarrow> jstring list" where
  "graph_lines graphNodes =
     [graph_rule NEO4J_topLeft NEO4J_doubleHorizontal NEO4J_doubleTopJoin NEO4J_topRight
        graphNodes,
      graph_row graphNodes (\<lambda>col. snd col),
      graph_rule NEO4J_doubleLeftJoin NEO4J_doubleHorizontal NEO4J_doubleCross
        NEO4J_doubleRightJoin graphNodes]
     @ block_lines graphNodes graphNodes
     @ [graph_rule NEO4J_bottomLeft NEO4J_doubleHorizontal NEO4J_doubleBottomJoin
          NEO4J_bottomRight graphNodes,
        [],
        ascii ''('' @ decimal (length graphNodes) @ ascii '' nodes)'']"

text \<open>No string of the node holds a newline.\<close>

definition newline_free_node :: "graph_node \<Rightarrow> bool" where
  "newline_free_node node \<longleftrightarrow>
     list_all (\<lambda>s. NL \<notin> set s)
       (case_option [] (\<lambda>s. [s]) (node_id node) @ case_option [] (\<lambda>s. [s]) (labels node)
        @ case_option [] (\<lambda>s. [s]) (name node)
        @ case_option [] id (properties node) @ case_option [] id (relationships node))"

section \<open>Verified properties\<close>

subsection \<open>Splitting and joining\<close>

lemma split_on_not_Nil: "split_on c s \<noteq> []"
  by (induction s) (auto split: list.splits)

lemma split_on_no_sep: "l \<in> set (split_on c s) \<Longrightarrow> c \<notin> set l"
proof (induction s arbitrary: l)
  case Nil
  then show ?case by simp
next
  case (Cons x xs)
  show ?case
  proof (cases "x = c")
    case True
    with Cons show ?thesis by auto
  next
    case False
    obtain y ys where ys: "split_on c xs = y # ys"
      using split_on_not_Nil [of c xs] by (cases "split_on c xs") auto
    with Cons False show ?thesis by auto
  qed
qed

lemma split_on_plain: "c \<notin> set l \<Longrightarrow> split_on c l = [l]"
  by (induction l) auto

lemma split_on_append_sep: "c \<notin> set l \<Longrightarrow> split_on c (l @ c # r) = l # split_on c r"
  by (induction l) auto

lemma split_on_join_with:
  "ls \<noteq> [] \<Longrightarrow> \<forall>l\<in>set ls. c \<notin> set l \<Longrightarrow> split_on c (join_with c ls) = ls"
proof (induction c ls rule: join_with.induct)
  case (1 c)
  then show ?case by simp
next
  case (2 c l)
  then show ?case by (simp add: split_on_plain)
next
  case (3 c l l' ls)
  then show ?case by (simp add: split_on_append_sep)
qed

lemma includes_single: "str_includes [g] s \<longleftrightarrow> g \<in> set s"
  by (induction s) auto

subsection \<open>Section parser\<close>

lemma has_box_glyph_iff: "has_box_glyph line \<longleftrightarrow> (\<exists>g\<in>set box_glyphs. g \<in> set line)"
  by (simp add: has_box_glyph_def list_ex_iff includes_single)

lemma markers_no_glyph:
  "\<not> has_box_glyph MARK_ANALYSIS" "\<not> has_box_glyph MARK_ANALISIS"
  "\<not> has_box_glyph MARK_DATA_TABLE" "\<not> has_box_glyph MARK_TABLA_DE_DATOS"
  "\<not> has_box_glyph MARK_GRAPH_DATA"
  by (simp_all add: has_box_glyph_iff box_glyphs_def MARK_ANALYSIS_def MARK_ANALISIS_def
      MARK_DATA_TABLE_def MARK_TABLA_DE_DATOS_def MARK_GRAPH_DATA_def ascii_def)

lemma markers_no_rows:
  "\<not> str_includes ROWS MARK_ANALYSIS" "\<not> str_includes ROWS MARK_ANALISIS"
  "\<not> str_includes ROWS MARK_DATA_TABLE" "\<not> str_includes ROWS MARK_TABLA_DE_DATOS"
  "\<not> str_includes ROWS MARK_GRAPH_DATA"
  by (simp_all add: ROWS_def MARK_ANALYSIS_def MARK_ANALISIS_def
      MARK_DATA_TABLE_def MARK_TABLA_DE_DATOS_def MARK_GRAPH_DATA_def ascii_def)

text \<open>
  The flag \<open>inTable\<close> is set exactly while the section under construction is of a table kind
  (a table header or a table body, plain or graph): every branch of the loop keeps the two in step.
\<close>

lemma inTable_table_kind_step:
  "inTable st = table_kind (ctype (currentSection st)) \<Longrightarrow>
   inTable (parse_line displayFormat st line)
     = table_kind (ctype (currentSection (parse_line displayFormat st line)))"
  by (auto simp: parse_line_def Let_def push_line_def table_kind_def)

lemma inTable_table_kind:
  "inTable (foldl (parse_line displayFormat) parser_init ls)
     = table_kind (ctype (currentSection (foldl (parse_line displayFormat) parser_init ls)))"
proof (induction ls rule: rev_induct)
  case Nil
  show ?case by (simp add: parser_init_def table_kind_def)
next
  case (snoc l ls)
  then show ?case by (simp add: inTable_table_kind_step)
qed

text \<open>
  C9. While the parser is in a table (\<open>inTable\<close>, which by \<open>inTable_table_kind\<close> is the same
  as the current section being of a table kind), a line that contains \<open>rows\<close> and none of the
  twelve box-drawing glyphs is added to the current section as its last line, that section is
  closed and pushed, and a fresh, empty text section is opened with \<open>inTable\<close> cleared. A line
  that contains one of the glyphs is instead appended as table content: it becomes the last
  line of a table-body section (the current one, or a new one opened for it after the current
  section is saved), and the parser stays in the table.
\<close>

theorem rows_line_closes_table:
  "(inTable st \<and> str_includes ROWS line \<and> \<not> has_box_glyph line \<longrightarrow>
      parse_line displayFormat st line =
        \<lparr>sections = sections st @
           [\<lparr>stype = ctype (currentSection st),
             content = join_with NL (clines (currentSection st) @ [line])\<rparr>],
         currentSection = \<lparr>ctype = Text, clines = []\<rparr>,
         inTable = False\<rparr>)
   \<and> (inTable st \<and> has_box_glyph line \<longrightarrow>
      (let st' = parse_line displayFormat st line in
         inTable st' \<and> ctype (currentSection st') \<in> {Table, GraphTable}
         \<and> clines (currentSection st') \<noteq> [] \<and> last (clines (currentSection st')) = line
         \<and> (sections st' = sections st
              \<and> clines (currentSection st') = clines (currentSection st) @ [line]
            \<or> sections st' = save_section st \<and> clines (currentSection st') = [line])))"
proof (intro conjI impI)
  assume a: "inTable st \<and> str_includes ROWS line \<and> \<not> has_box_glyph line"
  then have "line \<noteq> MARK_ANALYSIS" "line \<noteq> MARK_ANALISIS" "line \<noteq> MARK_DATA_TABLE"
    "line \<noteq> MARK_TABLA_DE_DATOS" "line \<noteq> MARK_GRAPH_DATA"
    using markers_no_rows by auto
  with a show "parse_line displayFormat st line =
        \<lparr>sections = sections st @
           [\<lparr>stype = ctype (currentSection st),
             content = join_with NL (clines (currentSection st) @ [line])\<rparr>],
         currentSection = \<lparr>ctype = Text, clines = []\<rparr>,
         inTable = False\<rparr>"
    by (simp add: parse_line_def finished_def push_line_def)
next
  assume a: "inTable st \<and> has_box_glyph line"
  then have "line \<noteq> MARK_ANALYSIS" "line \<noteq> MARK_ANALISIS" "line \<noteq> MARK_DATA_TABLE"
    "line \<noteq> MARK_TABLA_DE_DATOS" "line \<noteq> MARK_GRAPH_DATA"
    using markers_no_glyph by auto
  with a show "let st' = parse_line displayFormat st line in
         inTable st' \<and> ctype (currentSection st') \<in> {Table, GraphTable}
         \<and> clines (currentSection st') \<noteq> [] \<and> last (clines (currentSection st')) = line
         \<and> (sections st' = sections st
              \<and> clines (currentSection st') = clines (currentSection st) @ [line]
            \<or> sections st' = save_section st \<and> clines (currentSection st') = [line])"
    by (auto simp: parse_line_def Let_def push_line_def)
qed

text \<open>
  The theorem at a table section holding one border line: the footer line \<open>2 rows\<close> closes it,
  and a further border line would have been appended.
\<close>

theorem rows_line_closes_table_witness:
  "inTable \<lparr>sections = [], currentSection = \<lparr>ctype = Table, clines = [[0x2502, 0x2502]]\<rparr>,
            inTable = True\<rparr>
   \<and> str_includes ROWS (ascii ''2 rows'') \<and> \<not> has_box_glyph (ascii ''2 rows'')
   \<and> has_box_glyph [0x2514, 0x2518]
   \<and> parse_line (ascii ''table'')
        \<lparr>sections = [], currentSection = \<lparr>ctype = Table, clines = [[0x2502, 0x2502]]\<rparr>,
         inTable = True\<rparr> (ascii ''2 rows'')
      = \<lparr>sections = [\<lparr>stype = Table, content = [0x2502, 0x2502] @ NL # ascii ''2 rows''\<rparr>],
         currentSection = \<lparr>ctype = Text, clines = []\<rparr>, inTable = False\<rparr>
   \<and> last (clines (currentSection (parse_line (ascii ''table'')
        \<lparr>sections = [], currentSection = \<lparr>ctype = Table, clines = [[0x2502, 0x2502]]\<rparr>,
         inTable = True\<rparr> [0x2514, 0x2518])))
      = [0x2514, 0x2518]"
  using rows_line_closes_table [of
      "\<lparr>sections = [], currentSection = \<lparr>ctype = Table, clines = [[0x2502, 0x2502]]\<rparr>,
        inTable = True\<rparr>" "ascii ''2 rows''" "ascii ''table''"]
    rows_line_closes_table [of
      "\<lparr>sections = [], currentSection = \<lparr>ctype = Table, clines = [[0x2502, 0x2502]]\<rparr>,
        inTable = True\<rparr>" "[0x2514, 0x2518]" "ascii ''table''"]
  by (simp add: ROWS_def ascii_def has_box_glyph_iff box_glyphs_def Let_def save_section_def
      finished_def)

text \<open>
  Every line the loop takes in ends up in exactly one place, the finished sections or the
  section under construction, in input order: each branch either appends the line to the
  current section or saves the current section and opens a new one holding the line.
\<close>

lemma finished_lines:
  "clines cur \<noteq> [] \<Longrightarrow> \<forall>l\<in>set (clines cur). NL \<notin> set l \<Longrightarrow>
   split_on NL (content (finished cur)) = clines cur"
  by (simp add: finished_def split_on_join_with)

lemma save_section_lines:
  "newline_free st \<Longrightarrow>
   concat (map (\<lambda>s. split_on NL (content s)) (save_section st)) = lines_of st"
  by (cases "clines (currentSection st) = []")
     (simp_all add: save_section_def lines_of_def newline_free_def list_all_iff finished_lines)

lemma parse_line_lines:
  assumes "newline_free st" "NL \<notin> set line"
  shows "lines_of (parse_line fmt st line) = lines_of st @ [line]
         \<and> newline_free (parse_line fmt st line)"
  using assms save_section_lines [OF assms(1)]
  apply (simp add: parse_line_def Let_def)
  apply (auto simp: lines_of_def newline_free_def list_all_iff push_line_def finished_lines)
  done

lemma foldl_parse_line_lines:
  "newline_free st \<Longrightarrow> \<forall>l\<in>set ls. NL \<notin> set l \<Longrightarrow>
   lines_of (foldl (parse_line fmt) st ls) = lines_of st @ ls
   \<and> newline_free (foldl (parse_line fmt) st ls)"
proof (induction ls arbitrary: st)
  case Nil
  then show ?case by simp
next
  case (Cons l ls)
  from Cons.prems have step: "lines_of (parse_line fmt st l) = lines_of st @ [l]"
    and cl: "newline_free (parse_line fmt st l)"
    using parse_line_lines [of st l fmt] by simp_all
  from Cons.IH [OF cl] Cons.prems step show ?case by simp
qed

text \<open>
  C10. The parser partitions its input: the lines of the returned sections' contents, section
  after section, are the lines of the input text (\<open>text.split('\n')\<close>), each once and in
  order, marker lines included. The empty text has no lines and yields no section.
\<close>

theorem parse_partition:
  "concat (map (\<lambda>s. split_on NL (content s)) (parseContentSections displayFormat text))
   = (if text = [] then [] else split_on NL text)"
proof (cases "text = []")
  case True
  then show ?thesis by (simp add: parseContentSections_def)
next
  case False
  have init: "newline_free parser_init" "lines_of parser_init = []"
    by (simp_all add: newline_free_def lines_of_def parser_init_def)
  have nosep: "\<forall>l\<in>set (split_on NL text). NL \<notin> set l"
    by (auto dest: split_on_no_sep)
  let ?st = "foldl (parse_line displayFormat) parser_init (split_on NL text)"
  from foldl_parse_line_lines [OF init(1) nosep, of displayFormat] init(2)
  have "lines_of ?st = split_on NL text" and "newline_free ?st" by simp_all
  with save_section_lines [of ?st] False show ?thesis
    by (simp add: parseContentSections_def)
qed

subsection \<open>Reveal engine\<close>

lemma proper_prefix_is_extension:
  assumes "displayText s \<noteq> []" "prefix (displayText s) t" "t \<noteq> displayText s"
    "int (length (displayText s)) - int (currentIndex s) \<le> 10"
  shows "isExtension t (if cleanupPending s then clear_interval s else s)"
proof -
  from assms(2,3) have "length (displayText s) < length t"
    by (auto simp: prefix_def)
  with assms show ?thesis
    by (simp add: isExtension_def clear_interval_def TYPING_LAG_TOLERANCE_def)
qed

text \<open>
  C2, as the code has it. When the new target properly extends a non-empty display and the
  typing lag is at most 10, the effect takes its extension branch: display and cursor are kept
  and no interval is started; the body of the effect leaves the interval reference alone and
  only sets the typing flag. The one thing that can stop a live interval on such a call is the
  cleanup of the previous run of the effect, when that run returned one; nothing starts a new
  interval.
\<close>

theorem extension_keeps_tick:
  assumes "displayText s \<noteq> []" "prefix (displayText s) t2" "t2 \<noteq> displayText s"
    "int (length (displayText s)) - int (currentIndex s) \<le> 10"
  shows "displayText (advance t2 s) = displayText s
       \<and> currentIndex (advance t2 s) = currentIndex s
       \<and> intervalsStarted (advance t2 s) = intervalsStarted s
       \<and> intervalRef (advance t2 s) = (if cleanupPending s then None else intervalRef s)
       \<and> effect t2 s = s\<lparr>isTyping := True, cleanupPending := False\<rparr>"
proof -
  have ne: "t2 \<noteq> []" using assms(1,2) by auto
  have e1: "isExtension t2 (if cleanupPending s then clear_interval s else s)"
    using proper_prefix_is_extension [OF assms] .
  have e2: "isExtension t2 s"
    using e1 by (simp add: isExtension_def clear_interval_def split: if_splits)
  show ?thesis using ne assms(3) e1 e2
    by (simp add: advance_def effect_def clear_interval_def)
qed

text \<open>
  The theorem at the state reached by \<open>advance("Hello")\<close> and one tick (display \<open>H\<close>, cursor 1),
  for the new target \<open>Hello, world\<close>.
\<close>

theorem extension_keeps_tick_witness:
  "displayText (tick (advance (ascii ''Hello'') typewriter_init)) \<noteq> []
   \<and> prefix (displayText (tick (advance (ascii ''Hello'') typewriter_init))) (ascii ''Hello, world'')
   \<and> ascii ''Hello, world'' \<noteq> displayText (tick (advance (ascii ''Hello'') typewriter_init))
   \<and> int (length (displayText (tick (advance (ascii ''Hello'') typewriter_init))))
       - int (currentIndex (tick (advance (ascii ''Hello'') typewriter_init))) \<le> 10
   \<and> displayText (advance (ascii ''Hello, world'') (tick (advance (ascii ''Hello'') typewriter_init)))
       = ascii ''H''
   \<and> currentIndex (advance (ascii ''Hello, world'') (tick (advance (ascii ''Hello'') typewriter_init)))
       = 1
   \<and> intervalsStarted
        (advance (ascii ''Hello, world'') (tick (advance (ascii ''Hello'') typewriter_init)))
       = 1"
  using extension_keeps_tick
    [of "tick (advance (ascii ''Hello'') typewriter_init)" "ascii ''Hello, world''"]
  by (simp add: advance_def effect_def typewriter_init_def isExtension_def clear_interval_def
      start_interval_def MAX_INSTANT_CHARS_def ascii_def Let_def tick_def)

text \<open>
  C2 as stated fails when the display is still empty: the source does not take an empty display
  as an extension base. \<open>advance("Hello")\<close> followed, before any tick, by
  \<open>advance("Hello, world")\<close>: the second target begins with the first, it properly extends the
  (empty) display, the lag is 0, and yet the call goes through the restart branch, which clears
  the interval and starts a second one.
\<close>

theorem extension_of_empty_display_restarts:
  "prefix (ascii ''Hello'') (ascii ''Hello, world'')
   \<and> displayText (advance (ascii ''Hello'') typewriter_init) = []
   \<and> int (length (displayText (advance (ascii ''Hello'') typewriter_init)))
       - int (currentIndex (advance (ascii ''Hello'') typewriter_init)) \<le> 10
   \<and> intervalRef (advance (ascii ''Hello'') typewriter_init) = Some (ascii ''Hello'')
   \<and> intervalsStarted (advance (ascii ''Hello'') typewriter_init) = 1
   \<and> intervalsStarted (advance (ascii ''Hello, world'') (advance (ascii ''Hello'') typewriter_init))
       \<noteq> intervalsStarted (advance (ascii ''Hello'') typewriter_init)
   \<and> intervalsStarted (advance (ascii ''Hello, world'') (advance (ascii ''Hello'') typewriter_init))
       = 2
   \<and> intervalsStarted (effect (ascii ''Hello, world'') (advance (ascii ''Hello'') typewriter_init))
       = 2
   \<and> \<not> isExtension (ascii ''Hello, world'') (advance (ascii ''Hello'') typewriter_init)"
  by (simp add: advance_def effect_def typewriter_init_def isExtension_def clear_interval_def
      start_interval_def MAX_INSTANT_CHARS_def ascii_def Let_def)

text \<open>
  C3, as the code has it. For a non-empty target that does not start with the current display,
  \<open>advance\<close> sets the display to a prefix of the target at once: the first 10000 code units when
  the target is longer than that, the empty string otherwise; the cursor is the length of the
  new display.
\<close>

theorem restart_sets_prefix:
  assumes "t \<noteq> []" "\<not> prefix (displayText s) t"
  shows "displayText (advance t s) = (if length t > 10000 then take 10000 t else [])
       \<and> currentIndex (advance t s) = length (displayText (advance t s))
       \<and> prefix (displayText (advance t s)) t
       \<and> displayText (effect t s) = displayText (advance t s)
       \<and> currentIndex (effect t s) = currentIndex (advance t s)"
proof -
  have "\<not> isExtension t (if cleanupPending s then clear_interval s else s)"
    and "\<not> isExtension t s"
    using assms(2) by (simp_all add: isExtension_def clear_interval_def)
  moreover have "t \<noteq> displayText s" using assms(2) by auto
  ultimately show ?thesis using assms(1)
    by (simp add: advance_def effect_def clear_interval_def start_interval_def
        MAX_INSTANT_CHARS_def Let_def take_is_prefix)
qed

text \<open>The theorem at display \<open>a\<close> (after \<open>advance("ab")\<close> and one tick) and the target \<open>xy\<close>.\<close>

theorem restart_sets_prefix_witness:
  "ascii ''xy'' \<noteq> []
   \<and> \<not> prefix (displayText (tick (advance (ascii ''ab'') typewriter_init))) (ascii ''xy'')
   \<and> displayText (advance (ascii ''xy'') (tick (advance (ascii ''ab'') typewriter_init))) = []
   \<and> currentIndex (advance (ascii ''xy'') (tick (advance (ascii ''ab'') typewriter_init))) = 0"
  using restart_sets_prefix [of "ascii ''xy''" "tick (advance (ascii ''ab'') typewriter_init)"]
  by (simp add: advance_def effect_def typewriter_init_def isExtension_def clear_interval_def
      start_interval_def MAX_INSTANT_CHARS_def ascii_def Let_def tick_def)

text \<open>
  C3 as stated fails for the empty target, which the effect returns on before it looks at the
  display: with \<open>a\<close> on display, \<open>advance("")\<close> leaves \<open>a\<close> there, and \<open>a\<close> is not a prefix of
  the empty target.
\<close>

theorem empty_target_keeps_display:
  "\<not> prefix (displayText (tick (advance (ascii ''ab'') typewriter_init))) []
   \<and> displayText (advance [] (tick (advance (ascii ''ab'') typewriter_init))) = ascii ''a''
   \<and> displayText (effect [] (tick (advance (ascii ''ab'') typewriter_init))) = ascii ''a''
   \<and> \<not> prefix (displayText (advance [] (tick (advance (ascii ''ab'') typewriter_init)))) []"
  by (simp add: advance_def effect_def typewriter_init_def isExtension_def clear_interval_def
      start_interval_def MAX_INSTANT_CHARS_def ascii_def Let_def tick_def)

subsection \<open>Streaming-text presenter\<close>

text \<open>
  C4, as the code has it. Content in which \<open>=== ANALYSIS ===\<close> or \<open>=== DATA TABLE ===\<close> occurs
  (anywhere, not only as a whole line) is shown in full at once and without the typing cursor,
  whatever state the hook is in.
\<close>

theorem structured_content_shown_at_once:
  assumes "str_includes MARK_ANALYSIS c \<or> str_includes MARK_DATA_TABLE c"
  shows "StreamingText c typewriterResult = (c, False)"
proof -
  have "MARK_ANALYSIS \<noteq> []" "MARK_DATA_TABLE \<noteq> []"
    by (simp_all add: MARK_ANALYSIS_def MARK_DATA_TABLE_def ascii_def)
  with assms have "c \<noteq> []" by (cases c) auto
  with assms show ?thesis by (simp add: StreamingText_def isStructuredContent_def)
qed

theorem structured_content_shown_at_once_witness:
  "(str_includes MARK_ANALYSIS (MARK_ANALYSIS @ NL # ascii ''ok'')
      \<or> str_includes MARK_DATA_TABLE (MARK_ANALYSIS @ NL # ascii ''ok''))
   \<and> StreamingText (MARK_ANALYSIS @ NL # ascii ''ok'')
        (tick (advance (MARK_ANALYSIS @ NL # ascii ''ok'') typewriter_init))
      = (MARK_ANALYSIS @ NL # ascii ''ok'', False)"
  using structured_content_shown_at_once [of "MARK_ANALYSIS @ NL # ascii ''ok''"
      "tick (advance (MARK_ANALYSIS @ NL # ascii ''ok'') typewriter_init)"]
  by (simp add: MARK_ANALYSIS_def ascii_def)

text \<open>
  C4 as stated fails twice. Content that is the marker line \<open>=== GRAPH DATA ===\<close> is not taken
  as structured: the first render shows the hook's empty display, and after the effect and one
  tick it shows the first character with the typing cursor. And for content with the marker
  \<open>=== ANALYSIS ===\<close> the hook is still called: its effect enters the typing state and starts
  an interval, whose tick moves the cursor; only the hook's result is dropped.
\<close>

theorem graph_marker_not_bypassed:
  "str_includes MARK_GRAPH_DATA MARK_GRAPH_DATA
   \<and> StreamingText MARK_GRAPH_DATA typewriter_init \<noteq> (MARK_GRAPH_DATA, False)
   \<and> StreamingText MARK_GRAPH_DATA typewriter_init = ([], False)
   \<and> StreamingText MARK_GRAPH_DATA (tick (advance MARK_GRAPH_DATA typewriter_init))
       = (ascii ''='', True)
   \<and> isTyping (advance MARK_ANALYSIS typewriter_init)
   \<and> intervalRef (advance MARK_ANALYSIS typewriter_init) = Some MARK_ANALYSIS
   \<and> currentIndex (tick (advance MARK_ANALYSIS typewriter_init)) = 1"
  by (simp add: StreamingText_def isStructuredContent_def MARK_GRAPH_DATA_def MARK_ANALYSIS_def
      MARK_DATA_TABLE_def advance_def effect_def typewriter_init_def isExtension_def
      clear_interval_def start_interval_def MAX_INSTANT_CHARS_def ascii_def Let_def tick_def)

subsection \<open>Stream ingestion\<close>

text \<open>
  Splitting a buffer that has grown by a chunk: the complete lines seen before stay, and the
  held-back fragment is continued by the chunk.
\<close>

lemma split_on_append:
  "split_on c (a @ b) = butlast (split_on c a) @ split_on c (last (split_on c a) @ b)"
proof (induction a)
  case Nil
  then show ?case by simp
next
  case (Cons x xs)
  obtain l ls where S: "split_on c xs = l # ls"
    using split_on_not_Nil [of c xs] by (cases "split_on c xs") auto
  show ?case
  proof (cases "x = c")
    case True
    with Cons S show ?thesis by simp
  next
    case False
    show ?thesis
    proof (cases ls)
      case Nil
      with Cons S False show ?thesis by simp
    next
      case (Cons l' ls')
      with Cons.IH S False show ?thesis by simp
    qed
  qed
qed

lemma process_lines_append:
  "process_lines parse (xs @ ys) =
     (case process_lines parse xs of
        (evs, returned) \<Rightarrow>
          if returned then (evs, True)
          else (case process_lines parse ys of (evs', r) \<Rightarrow> (evs @ evs', r)))"
  by (induction xs) (auto split: option.splits prod.splits)

text \<open>
  The loop over the chunks makes the calls that one pass over the complete lines of the whole
  delivered text makes, whatever the chunk boundaries; the reads' end is only reached when no
  line has returned. The buffer carried between reads holds no newline.
\<close>

lemma read_loop_concat:
  "NL \<notin> set buffer \<Longrightarrow>
   read_loop parse buffer chunks fin =
     (case process_lines parse (butlast (split_on NL (buffer @ concat chunks))) of
        (evs, returned) \<Rightarrow> if returned then evs else evs @ end_events fin)"
proof (induction chunks arbitrary: buffer)
  case Nil
  then show ?case by (simp add: end_events_def split_on_plain)
next
  case (Cons chunk chunks)
  let ?L = "split_on NL (buffer @ chunk)"
  have "last ?L \<in> set ?L"
    using split_on_not_Nil [of NL "buffer @ chunk"] by simp
  then have clean: "NL \<notin> set (last ?L)"
    by (rule split_on_no_sep)
  have "split_on NL (buffer @ chunk @ concat chunks)
        = butlast ?L @ split_on NL (last ?L @ concat chunks)"
    using split_on_append [of NL "buffer @ chunk" "concat chunks"] by simp
  then have "butlast (split_on NL (buffer @ chunk @ concat chunks))
        = butlast ?L @ butlast (split_on NL (last ?L @ concat chunks))"
    by (simp add: butlast_append split_on_not_Nil)
  then show ?case
    by (simp add: Cons.IH [OF clean] process_lines_append split: prod.splits)
qed

lemma scenario_lines:
  "butlast (split_on NL scenario_frames) =
     [DATA_PREFIX @ PAYLOAD_A, DATA_PREFIX @ PAYLOAD_AB, DATA_PREFIX @ PAYLOAD_COMPLETE]"
  by (simp add: scenario_frames_def DATA_PREFIX_def PAYLOAD_A_def PAYLOAD_AB_def
      PAYLOAD_COMPLETE_def NL_def ascii_def)

lemma payload_nonblank:
  "trim PAYLOAD_A \<noteq> []" "trim PAYLOAD_AB \<noteq> []" "trim PAYLOAD_COMPLETE \<noteq> []"
  by (simp_all add: trim_def PAYLOAD_A_def PAYLOAD_AB_def PAYLOAD_COMPLETE_def ascii_def
      js_whitespace_def)

lemma data_prefix_length: "length DATA_PREFIX = 6"
  by (simp add: DATA_PREFIX_def ascii_def)

lemma status_msgs:
  "\<not> status_complete MSG_A" "\<not> status_complete MSG_AB" "status_complete MSG_COMPLETE"
  by (simp_all add: MSG_A_def MSG_AB_def MSG_COMPLETE_def ascii_def)

lemma scenario_process_lines:
  assumes "parse PAYLOAD_A = Some MSG_A" "parse PAYLOAD_AB = Some MSG_AB"
    and "parse PAYLOAD_COMPLETE = Some MSG_COMPLETE"
  shows "process_lines parse (butlast (split_on NL scenario_frames))
         = ([OnMessage MSG_A, OnMessage MSG_AB, OnMessage MSG_COMPLETE, OnComplete], True)"
  using assms
  by (simp add: scenario_lines payload_nonblank data_prefix_length status_msgs)

lemma scenario_parse_payloads:
  "scenario_parse PAYLOAD_A = Some MSG_A" "scenario_parse PAYLOAD_AB = Some MSG_AB"
  "scenario_parse PAYLOAD_COMPLETE = Some MSG_COMPLETE"
  by (simp_all add: scenario_parse_def PAYLOAD_A_def PAYLOAD_AB_def PAYLOAD_COMPLETE_def
      ascii_def)

text \<open>
  C1, as the code has it. When the transport delivers the three frame lines, in whatever
  chunks, and \<open>JSON.parse\<close> decodes the three payloads to their objects, \<open>onMessage\<close> is
  called three times, for \<open>{"text":"A"}\<close>, \<open>{"text":"AB"}\<close> and the terminal
  \<open>{"status":"complete"}\<close> in that order, then \<open>onComplete\<close> once; \<open>onError\<close> is not called,
  and nothing is called for the way the reads would have ended.
\<close>

theorem scenario_events:
  assumes "concat chunks = scenario_frames"
    and "parse PAYLOAD_A = Some MSG_A" "parse PAYLOAD_AB = Some MSG_AB"
    and "parse PAYLOAD_COMPLETE = Some MSG_COMPLETE"
  shows "processStream parse chunks fin
         = [OnMessage MSG_A, OnMessage MSG_AB, OnMessage MSG_COMPLETE, OnComplete]"
  using assms(1) scenario_process_lines [OF assms(2-4)]
  by (simp add: processStream_def read_loop_concat)

text \<open>The theorem for two chunks that cut the first line in the middle.\<close>

theorem scenario_events_witness:
  "concat [take 10 scenario_frames, drop 10 scenario_frames] = scenario_frames
   \<and> scenario_parse PAYLOAD_A = Some MSG_A \<and> scenario_parse PAYLOAD_AB = Some MSG_AB
   \<and> scenario_parse PAYLOAD_COMPLETE = Some MSG_COMPLETE
   \<and> processStream scenario_parse [take 10 scenario_frames, drop 10 scenario_frames] Failed
       = [OnMessage MSG_A, OnMessage MSG_AB, OnMessage MSG_COMPLETE, OnComplete]"
  using scenario_events [of "[take 10 scenario_frames, drop 10 scenario_frames]" scenario_parse
      Failed]
  by (simp add: scenario_parse_payloads)

text \<open>
  C1 as stated fails: the terminal message is handed to \<open>onMessage\<close> before its status is
  looked at, so the three lines give three \<open>onMessage\<close> calls, not two.
\<close>

theorem terminal_message_is_delivered:
  "processStream scenario_parse [scenario_frames] Done
     = [OnMessage MSG_A, OnMessage MSG_AB, OnMessage MSG_COMPLETE, OnComplete]
   \<and> length (filter is_OnMessage (processStream scenario_parse [scenario_frames] Done)) = 3
   \<and> length (filter is_OnMessage (processStream scenario_parse [scenario_frames] Done)) \<noteq> 2
   \<and> processStream scenario_parse [scenario_frames] Done
     \<noteq> [OnMessage MSG_A, OnMessage MSG_AB, OnComplete]"
  using scenario_process_lines [OF scenario_parse_payloads]
  by (simp add: processStream_def read_loop_concat is_OnMessage_def)

subsection \<open>Table formatter\<close>

lemma digit_not_control: "k < 10 \<Longrightarrow> (of_nat (48 + k) :: 16 word) \<noteq> NL \<and> (of_nat (48 + k) :: 16 word) \<noteq> SP"
proof -
  assume "k < 10"
  then have "k \<in> {0, 1, 2, 3, 4, 5, 6, 7, 8, 9}" by auto
  then show ?thesis by (auto simp: NL_def SP_def)
qed

lemma decimal_newline_free: "NL \<notin> set (decimal n)"
proof (induction n rule: decimal.induct)
  case (1 n)
  show ?case
  proof (cases "n < 10")
    case True
    then show ?thesis using digit_not_control [of n] by (auto simp: decimal.simps [of n])
  next
    case False
    have "n mod 10 < 10" by simp
    with False 1 digit_not_control [of "n mod 10"] show ?thesis
      by (auto simp: decimal.simps [of n])
  qed
qed

lemma border_columns_newline_free:
  "fill \<noteq> NL \<Longrightarrow> join \<noteq> NL \<Longrightarrow> close \<noteq> NL \<Longrightarrow> NL \<notin> set (border_columns fill join close ws)"
  by (induction fill join close ws rule: border_columns.induct) auto

lemma box_not_NL:
  "BOX_topLeft \<noteq> NL" "BOX_horizontal \<noteq> NL" "BOX_topJoin \<noteq> NL" "BOX_topRight \<noteq> NL"
  "BOX_headerLeftJoin \<noteq> NL" "BOX_doubleHorizontal \<noteq> NL" "BOX_headerCross \<noteq> NL"
  "BOX_headerRightJoin \<noteq> NL" "BOX_bottomLeft \<noteq> NL" "BOX_bottomJoin \<noteq> NL"
  "BOX_bottomRight \<noteq> NL" "BOX_vertical \<noteq> NL" "SP \<noteq> NL"
  "NL \<noteq> BOX_topLeft" "NL \<noteq> BOX_headerLeftJoin" "NL \<noteq> BOX_bottomLeft"
  "NL \<noteq> BOX_vertical" "NL \<noteq> SP"
  by (simp_all add: NL_def SP_def BOX_topLeft_def BOX_horizontal_def BOX_topJoin_def
      BOX_topRight_def BOX_headerLeftJoin_def BOX_doubleHorizontal_def BOX_headerCross_def
      BOX_headerRightJoin_def BOX_bottomLeft_def BOX_bottomJoin_def BOX_bottomRight_def
      BOX_vertical_def)

lemma rowCountText_newline_free: "NL \<notin> set (rowCountText data)"
  by (auto simp: rowCountText_def decimal_newline_free) (simp_all add: ascii_def NL_def)

lemma centeredRowCount_newline_free: "NL \<notin> set (centeredRowCount api data)"
  using rowCountText_newline_free [of data]
  by (auto simp: centeredRowCount_def Let_def NL_def SP_def)

lemma cellValue_newline_free:
  "NL \<notin> set (formatNumber api v) \<Longrightarrow> NL \<notin> set (cellValue api v)"
  by (auto simp: cellValue_def Let_def ascii_def NL_def dest: in_set_takeD)

lemma padCell_newline_free: "NL \<notin> set v \<Longrightarrow> NL \<notin> set (padCell v w a)"
  by (auto simp: padCell_def padStart_def padEnd_def NL_def SP_def)

lemma tableLines_newline_free:
  assumes "newline_free_table api data"
  shows "\<forall>l\<in>set (tableLines api data). NL \<notin> set l"
proof -
  have b: "NL \<notin> set (topBorder api data)" "NL \<notin> set (headerSeparator api data)"
    "NL \<notin> set (bottomBorder api data)"
    by (simp_all add: topBorder_def headerSeparator_def bottomBorder_def
        border_columns_newline_free box_not_NL)
  have h: "NL \<notin> set (headerRow api data)"
    using assms
    by (auto simp: newline_free_table_def list_all_iff headerRow_def headerCell_def
        padCell_newline_free) (simp_all add: NL_def BOX_vertical_def SP_def)
  have d: "\<forall>row\<in>set (take 100 data). NL \<notin> set (dataRow api data row)"
    using assms
    by (auto simp: newline_free_table_def list_all_iff dataRow_def dataCell_def
        padCell_newline_free cellValue_newline_free) (simp_all add: NL_def BOX_vertical_def SP_def)
  show ?thesis using b h d centeredRowCount_newline_free [of api data]
    by (auto simp: tableLines_def dataRows_def)
qed


lemma formatAsTable_lines:
  assumes "data \<noteq> []" "newline_free_table api data"
  shows "split_on NL (formatAsTable api data) = tableLines api data"
proof -
  have "tableLines api data \<noteq> []" by (simp add: tableLines_def)
  with assms tableLines_newline_free [OF assms(2)] show ?thesis
    by (simp add: formatAsTable_def split_on_join_with)
qed

text \<open>
  C6. A non-empty input is rendered as the top border, the header row, the header separator,
  the data rows, the bottom border and the footer, joined by newlines; when no header and no
  cell text holds a newline these are the physical lines of the output. The footer is the row
  count text after the centring spaces. For more than 100 rows there are exactly 100 data rows,
  those of the first 100 rows, and the text is \<open><N> rows (showing first 100)\<close>; for 1 to 100
  rows every row has its data row and the text is \<open>1 row\<close> or \<open><N> rows\<close>.
\<close>

theorem table_row_limit_and_footer:
  assumes "data \<noteq> []"
  shows "formatAsTable api data
           = join_with NL ([topBorder api data, headerRow api data, headerSeparator api data]
                           @ dataRows api data
                           @ [bottomBorder api data, centeredRowCount api data])
       \<and> (newline_free_table api data \<longrightarrow>
            split_on NL (formatAsTable api data)
              = [topBorder api data, headerRow api data, headerSeparator api data]
                @ dataRows api data
                @ [bottomBorder api data, centeredRowCount api data])
       \<and> (\<exists>padding. centeredRowCount api data = replicate padding SP @ rowCountText data)
       \<and> (100 < length data \<longrightarrow>
            dataRows api data = map (dataRow api data) (take 100 data)
            \<and> length (dataRows api data) = 100
            \<and> rowCountText data = decimal (length data) @ ascii '' rows (showing first 100)'')
       \<and> (length data \<le> 100 \<longrightarrow>
            dataRows api data = map (dataRow api data) data
            \<and> length (dataRows api data) = length data
            \<and> rowCountText data
                = decimal (length data)
                  @ (if length data = 1 then ascii '' row'' else ascii '' rows''))"
proof -
  have lines: "tableLines api data
      = [topBorder api data, headerRow api data, headerSeparator api data]
        @ dataRows api data @ [bottomBorder api data, centeredRowCount api data]"
    by (simp add: tableLines_def)
  have a: "formatAsTable api data = join_with NL (tableLines api data)"
    using assms by (simp add: formatAsTable_def)
  have b: "newline_free_table api data \<longrightarrow>
      split_on NL (formatAsTable api data) = tableLines api data"
    using formatAsTable_lines [OF assms] by simp
  have c: "\<exists>padding. centeredRowCount api data = replicate padding SP @ rowCountText data"
    by (auto simp: centeredRowCount_def Let_def)
  have d: "100 < length data \<longrightarrow>
      dataRows api data = map (dataRow api data) (take 100 data)
      \<and> length (dataRows api data) = 100
      \<and> rowCountText data = decimal (length data) @ ascii '' rows (showing first 100)''"
    by (simp add: dataRows_def rowCountText_def)
  have e: "length data \<le> 100 \<longrightarrow>
      dataRows api data = map (dataRow api data) data
      \<and> length (dataRows api data) = length data
      \<and> rowCountText data
          = decimal (length data) @ (if length data = 1 then ascii '' row'' else ascii '' rows'')"
    by (simp add: dataRows_def rowCountText_def ascii_def)
  from a b c d e show ?thesis unfolding lines by blast
qed

text \<open>
  The theorem at two rows (state and yield of Iowa and Ohio), where the output has seven lines
  and the footer text is \<open>2 rows\<close>, and at 150 equal rows, where 100 data rows are drawn and the
  footer text is \<open>150 rows (showing first 100)\<close>.
\<close>

theorem table_row_limit_and_footer_witness:
  "newline_free_table nat_number_api
     [[(ascii ''state'', JString (ascii ''Iowa'')), (ascii ''yield'', JNumber 1234)],
      [(ascii ''state'', JString (ascii ''Ohio'')), (ascii ''yield'', JString (ascii ''987''))]]
   \<and> length (split_on NL (formatAsTable nat_number_api
     [[(ascii ''state'', JString (ascii ''Iowa'')), (ascii ''yield'', JNumber 1234)],
      [(ascii ''state'', JString (ascii ''Ohio'')), (ascii ''yield'', JString (ascii ''987''))]])) = 7
   \<and> rowCountText
     ([[(ascii ''state'', JString (ascii ''Iowa'')), (ascii ''yield'', JNumber 1234)],
      [(ascii ''state'', JString (ascii ''Ohio'')), (ascii ''yield'', JString (ascii ''987''))]] :: nat row list) = ascii ''2 rows''
   \<and> 100 < length (replicate 150 [(ascii ''v'', JNumber (7::nat))])
   \<and> length (dataRows nat_number_api (replicate 150 [(ascii ''v'', JNumber 7)])) = 100
   \<and> rowCountText (replicate 150 [(ascii ''v'', JNumber (7::nat))])
       = ascii ''150 rows (showing first 100)''"
proof -
  let ?d = "[[(ascii ''state'', JString (ascii ''Iowa'')), (ascii ''yield'', JNumber 1234)],
      [(ascii ''state'', JString (ascii ''Ohio'')), (ascii ''yield'', JString (ascii ''987''))]]
      :: nat row list"
  let ?big = "replicate 150 [(ascii ''v'', JNumber (7::nat))]"
  have g: "grouped 1234 = ascii ''1,234''"
    by (simp add: grouped.simps decimal.simps ascii_def)
  have small: "newline_free_table nat_number_api ?d"
    by (simp add: newline_free_table_def headers_of_def lookup_def formatNumber_def
        nat_number_api_def g) (simp add: ascii_def NL_def)
  have ne: "?d \<noteq> []" "?big \<noteq> []" by simp_all
  have len: "length ?d \<le> 100" "100 < length ?big" by simp_all
  note T = table_row_limit_and_footer [OF ne(1), of nat_number_api]
  note B = table_row_limit_and_footer [OF ne(2), of nat_number_api]
  from T small have s: "split_on NL (formatAsTable nat_number_api ?d)
      = [topBorder nat_number_api ?d, headerRow nat_number_api ?d,
         headerSeparator nat_number_api ?d]
        @ dataRows nat_number_api ?d
        @ [bottomBorder nat_number_api ?d, centeredRowCount nat_number_api ?d]"
    by blast
  from T len(1) have dr: "length (dataRows nat_number_api ?d) = length ?d"
    by blast
  from T len(1) have rc: "rowCountText ?d
      = decimal (length ?d) @ (if length ?d = 1 then ascii '' row'' else ascii '' rows'')"
    by blast
  from B len(2) have bd: "length (dataRows nat_number_api ?big) = 100"
    by blast
  from B len(2) have bc: "rowCountText ?big
      = decimal (length ?big) @ ascii '' rows (showing first 100)''"
    by blast
  have c1: "length (split_on NL (formatAsTable nat_number_api ?d)) = 7"
    unfolding s using dr by simp
  have c2: "rowCountText ?d = ascii ''2 rows''"
    unfolding rc by (simp add: decimal.simps ascii_def)
  have c3: "rowCountText ?big = ascii ''150 rows (showing first 100)''"
    unfolding bc by (simp add: decimal.simps ascii_def)
  from small c1 c2 len(2) bd c3 show ?thesis by blast
qed

lemma colAlignments_foldl:
  "foldl (\<lambda>hasNumbers row.
              if hasNumbers \<and> lookup row header \<noteq> JNull \<and> lookup row header \<noteq> JUndefined
              then hasNumbers \<and> isNumeric (lookup row header)
              else hasNumbers) acc data
   = (acc \<and> (\<forall>row\<in>set data. lookup row header \<noteq> JNull \<and> lookup row header \<noteq> JUndefined
                \<longrightarrow> isNumeric (lookup row header)))"
  by (induction data arbitrary: acc) auto

lemma colAlignments_iff:
  "colAlignments data header
   = (\<forall>row\<in>set data. lookup row header \<noteq> JNull \<and> lookup row header \<noteq> JUndefined
        \<longrightarrow> isNumeric (lookup row header))"
  by (simp add: colAlignments_def colAlignments_foldl)

text \<open>
  C7. A column is flagged right-aligned exactly when every value in it that is neither null
  nor undefined is numeric (\<open>isNumeric\<close>: a number, or a string \<open>parseFloat\<close> reads a number
  from); the cells of a data row are padded at the start in a flagged column and at the end
  otherwise; the cells of the header row are always padded at the end.
\<close>

theorem column_alignment:
  "colAlignments data header
     = (\<forall>row\<in>set data. lookup row header \<noteq> JNull \<and> lookup row header \<noteq> JUndefined
          \<longrightarrow> isNumeric (lookup row header))
   \<and> dataRow api data row
     = BOX_vertical #
       concat (map (\<lambda>h. [SP]
                      @ (if colAlignments data h
                         then padStart (cellValue api (lookup row h)) (colWidths api data h)
                         else padEnd (cellValue api (lookup row h)) (colWidths api data h))
                      @ [SP, BOX_vertical])
                 (headers_of data))
   \<and> headerRow api data
     = BOX_vertical #
       concat (map (\<lambda>h. [SP] @ padEnd h (colWidths api data h) @ [SP, BOX_vertical])
                 (headers_of data))"
  by (simp add: colAlignments_iff dataRow_def dataCell_def headerRow_def headerCell_def
      padCell_def cong: map_cong)

text \<open>
  The theorem at the two rows of Iowa and Ohio: the yield column (a number and a numeric
  string) is right-aligned, the state column is not, and the second data row reads
  \<open>| Ohio  |   987 |\<close> under the header row \<open>| state | yield |\<close>.
\<close>

theorem column_alignment_witness:
  "colAlignments
     ([[(ascii ''state'', JString (ascii ''Iowa'')), (ascii ''yield'', JNumber 1234)],
       [(ascii ''state'', JString (ascii ''Ohio'')), (ascii ''yield'', JString (ascii ''987''))]]
      :: nat row list) (ascii ''yield'')
   \<and> \<not> colAlignments
     ([[(ascii ''state'', JString (ascii ''Iowa'')), (ascii ''yield'', JNumber 1234)],
       [(ascii ''state'', JString (ascii ''Ohio'')), (ascii ''yield'', JString (ascii ''987''))]]
      :: nat row list) (ascii ''state'')
   \<and> dataRow nat_number_api
       [[(ascii ''state'', JString (ascii ''Iowa'')), (ascii ''yield'', JNumber 1234)],
        [(ascii ''state'', JString (ascii ''Ohio'')), (ascii ''yield'', JString (ascii ''987''))]]
       [(ascii ''state'', JString (ascii ''Ohio'')), (ascii ''yield'', JString (ascii ''987''))]
     = [BOX_vertical] @ ascii '' Ohio  '' @ [BOX_vertical] @ ascii ''   987 '' @ [BOX_vertical]
   \<and> headerRow nat_number_api
       [[(ascii ''state'', JString (ascii ''Iowa'')), (ascii ''yield'', JNumber 1234)],
        [(ascii ''state'', JString (ascii ''Ohio'')), (ascii ''yield'', JString (ascii ''987''))]]
     = [BOX_vertical] @ ascii '' state '' @ [BOX_vertical] @ ascii '' yield '' @ [BOX_vertical]"
proof -
  let ?d = "[[(ascii ''state'', JString (ascii ''Iowa'')), (ascii ''yield'', JNumber 1234)],
       [(ascii ''state'', JString (ascii ''Ohio'')), (ascii ''yield'', JString (ascii ''987''))]]
      :: nat row list"
  let ?r = "[(ascii ''state'', JString (ascii ''Ohio'')), (ascii ''yield'', JString (ascii ''987''))]
      :: nat row"
  note Y = column_alignment [of ?d "ascii ''yield''" nat_number_api ?r]
  note S = column_alignment [of ?d "ascii ''state''" nat_number_api ?r]
  have g: "grouped 1234 = ascii ''1,234''"
    by (simp add: grouped.simps decimal.simps ascii_def)
  have keys: "ascii ''state'' \<noteq> ascii ''yield''" "ascii ''yield'' \<noteq> ascii ''state''"
    by (simp_all add: ascii_def)
  have n: "parses_as_number (ascii ''987'')" "\<not> parses_as_number (ascii ''Iowa'')"
    by (simp_all add: parses_as_number_def js_whitespace_def is_digit_def ascii_def Let_def)
  have y: "colAlignments ?d (ascii ''yield'')"
    using Y keys n by (simp add: lookup_def isNumeric_def)
  have s: "\<not> colAlignments ?d (ascii ''state'')"
    using S keys n by (simp add: lookup_def isNumeric_def)
  have w: "colWidths nat_number_api ?d (ascii ''state'') = 5"
    "colWidths nat_number_api ?d (ascii ''yield'') = 5"
    using keys by (simp_all add: colWidths_def lookup_def formatNumber_def nat_number_api_def g)
      (simp_all add: ascii_def)
  have c: "cellValue nat_number_api (lookup ?r (ascii ''state'')) = ascii ''Ohio''"
    "cellValue nat_number_api (lookup ?r (ascii ''yield'')) = ascii ''987''"
    using keys by (simp_all add: cellValue_def lookup_def formatNumber_def Let_def)
      (simp_all add: ascii_def)
  have h: "headers_of ?d = [ascii ''state'', ascii ''yield'']"
    by (simp add: headers_of_def)
  from Y have "dataRow nat_number_api ?d ?r
     = BOX_vertical #
       concat (map (\<lambda>h. [SP]
                      @ (if colAlignments ?d h
                         then padStart (cellValue nat_number_api (lookup ?r h))
                                (colWidths nat_number_api ?d h)
                         else padEnd (cellValue nat_number_api (lookup ?r h))
                                (colWidths nat_number_api ?d h))
                      @ [SP, BOX_vertical])
                 (headers_of ?d))"
    by blast
  then have dr: "dataRow nat_number_api ?d ?r
     = [BOX_vertical] @ ascii '' Ohio  '' @ [BOX_vertical] @ ascii ''   987 '' @ [BOX_vertical]"
    unfolding h by (simp add: y s w c padStart_def padEnd_def) (simp add: ascii_def SP_def numeral_2_eq_2)
  from Y have "headerRow nat_number_api ?d
     = BOX_vertical #
       concat (map (\<lambda>h. [SP] @ padEnd h (colWidths nat_number_api ?d h) @ [SP, BOX_vertical])
                 (headers_of ?d))"
    by blast
  then have hr: "headerRow nat_number_api ?d
     = [BOX_vertical] @ ascii '' state '' @ [BOX_vertical] @ ascii '' yield '' @ [BOX_vertical]"
    unfolding h by (simp add: w padEnd_def) (simp add: ascii_def SP_def)
  from y s dr hr show ?thesis by blast
qed

subsection \<open>Graph table formatter\<close>

lemma graph_row_cells:
  "graph_row graphNodes val
   = graph_cells graphNodes (val (Key_labels, ascii ''Labels'')) (val (Key_name, ascii ''Name''))
       (val (Key_properties, ascii ''Properties''))
       (val (Key_relationships, ascii ''Relationships''))"
  by (simp add: graph_row_def graph_cells_def columns_def cell_width_def butlast_append)


lemma entry_Nil: "entry [] i = []"
  by (simp add: entry_def)



lemma fold_max_eq_Max: "fold max xs (a::nat) = Max (insert a (set xs))"
proof (induction xs arbitrary: a)
  case Nil
  then show ?case by simp
next
  case (Cons y ys)
  have "Max (insert (max y a) (set ys)) = Max (insert a (insert y (set ys)))"
    by (cases "set ys = {}") (auto simp: max.commute max.left_commute)
  with Cons show ?case by simp
qed


lemma col_width_Max:
  "col_width graphNodes (key, header)
   = Max (insert (length header) ((\<lambda>node. length (getNodeValue node key)) ` set graphNodes)) + 2"
  by (simp add: col_width_def fold_max_eq_Max)


text \<open>
  The output of the graph branch is its lines, each followed by a newline; when no string of
  a node holds a newline, splitting the output at newlines gives these lines back, and the
  lines of every node are among them, together and in order.
\<close>

lemma split_on_concat_lines:
  "\<forall>l\<in>set ls. c \<notin> set l \<Longrightarrow> split_on c (concat (map (\<lambda>l. l @ [c]) ls)) = ls @ [[]]"
  by (induction ls) (simp_all add: split_on_append_sep)

lemma node_blocks_lines:
  "node_blocks graphNodes ns = concat (map (\<lambda>l. l @ [NL]) (block_lines graphNodes ns))"
  by (induction graphNodes ns rule: node_blocks.induct) simp_all

lemma formatAsGraphTable_concat:
  "graphNodes \<noteq> [] \<Longrightarrow>
   formatAsGraphTable regularTable graphNodes (Some NEO4J_GRAPH)
   = concat (map (\<lambda>l. l @ [NL]) (graph_lines graphNodes))"
  by (simp add: formatAsGraphTable_def graph_lines_def node_blocks_lines)

lemma rule_columns_newline_free:
  "fill \<noteq> NL \<Longrightarrow> join \<noteq> NL \<Longrightarrow> NL \<notin> set (rule_columns fill join ws)"
  by (induction fill join ws rule: rule_columns.induct) auto

lemma neo4j_not_NL:
  "NEO4J_topLeft \<noteq> NL" "NEO4J_doubleHorizontal \<noteq> NL" "NEO4J_doubleTopJoin \<noteq> NL"
  "NEO4J_topRight \<noteq> NL" "NEO4J_doubleLeftJoin \<noteq> NL" "NEO4J_doubleCross \<noteq> NL"
  "NEO4J_doubleRightJoin \<noteq> NL" "NEO4J_bottomLeft \<noteq> NL" "NEO4J_doubleBottomJoin \<noteq> NL"
  "NEO4J_bottomRight \<noteq> NL" "NEO4J_leftJoin \<noteq> NL" "NEO4J_horizontal \<noteq> NL"
  "NEO4J_cross \<noteq> NL" "NEO4J_rightJoin \<noteq> NL" "NEO4J_doubleVertical \<noteq> NL"
  "NEO4J_vertical \<noteq> NL" "ELLIPSIS \<noteq> NL"
  "NL \<noteq> NEO4J_topLeft" "NL \<noteq> NEO4J_topRight" "NL \<noteq> NEO4J_doubleLeftJoin"
  "NL \<noteq> NEO4J_doubleRightJoin" "NL \<noteq> NEO4J_bottomLeft" "NL \<noteq> NEO4J_bottomRight"
  "NL \<noteq> NEO4J_leftJoin" "NL \<noteq> NEO4J_rightJoin" "NL \<noteq> NEO4J_doubleVertical"
  "NL \<noteq> NEO4J_vertical" "NL \<noteq> ELLIPSIS"
  by (simp_all add: NL_def NEO4J_topLeft_def NEO4J_doubleHorizontal_def NEO4J_doubleTopJoin_def
      NEO4J_topRight_def NEO4J_doubleLeftJoin_def NEO4J_doubleCross_def
      NEO4J_doubleRightJoin_def NEO4J_bottomLeft_def NEO4J_doubleBottomJoin_def
      NEO4J_bottomRight_def NEO4J_leftJoin_def NEO4J_horizontal_def NEO4J_cross_def
      NEO4J_rightJoin_def NEO4J_doubleVertical_def NEO4J_vertical_def ELLIPSIS_def)

lemma graph_rule_newline_free:
  "left \<noteq> NL \<Longrightarrow> fill \<noteq> NL \<Longrightarrow> join \<noteq> NL \<Longrightarrow> right \<noteq> NL \<Longrightarrow>
   NL \<notin> set (graph_rule left fill join right graphNodes)"
  using rule_columns_newline_free [of fill join]
  by (auto simp: graph_rule_def)

lemma padString_newline_free: "NL \<notin> set v \<Longrightarrow> NL \<notin> set (padString v w)"
  using box_not_NL(13) neo4j_not_NL(17)
  by (auto simp: padString_def padEnd_def dest: in_set_takeD)

lemma graph_cells_newline_free:
  "NL \<notin> set a \<Longrightarrow> NL \<notin> set b \<Longrightarrow> NL \<notin> set c \<Longrightarrow> NL \<notin> set d \<Longrightarrow>
   NL \<notin> set (graph_cells graphNodes a b c d)"
  using box_not_NL(13,18) neo4j_not_NL(15,16,26,27)
  by (simp add: graph_cells_def padString_newline_free)

lemma entry_newline_free: "\<forall>s\<in>set xs. NL \<notin> set s \<Longrightarrow> NL \<notin> set (entry xs i)"
  by (simp add: entry_def)

lemma line_value_newline_free:
  "newline_free_node node \<Longrightarrow> NL \<notin> set (line_value node i key)"
  by (cases key)
     (auto simp: newline_free_node_def line_value_def getNodeValue_def or_default_def entry_def
      list_all_iff ascii_def NL_def split: option.splits dest: hd_in_set)

lemma node_lines_newline_free:
  "newline_free_node node \<Longrightarrow> \<forall>l\<in>set (node_lines graphNodes node). NL \<notin> set l"
  by (auto simp: node_lines_def graph_row_cells graph_cells_newline_free
      line_value_newline_free)

lemma block_lines_newline_free:
  "\<forall>node\<in>set ns. newline_free_node node \<Longrightarrow>
   \<forall>l\<in>set (block_lines graphNodes ns). NL \<notin> set l"
proof (induction graphNodes ns rule: block_lines.induct)
  case (1 graphNodes)
  then show ?case by simp
next
  case (2 graphNodes node)
  then show ?case using node_lines_newline_free [of node graphNodes] by simp
next
  case (3 graphNodes node node' rest)
  then show ?case
    using node_lines_newline_free [of node graphNodes]
    by (auto simp: graph_rule_newline_free neo4j_not_NL)
qed

lemma graph_lines_newline_free:
  assumes "\<forall>node\<in>set graphNodes. newline_free_node node"
  shows "\<forall>l\<in>set (graph_lines graphNodes). NL \<notin> set l"
proof -
  have "NL \<notin> set (ascii ''Labels'')" "NL \<notin> set (ascii ''Name'')"
    "NL \<notin> set (ascii ''Properties'')" "NL \<notin> set (ascii ''Relationships'')"
    by (simp_all add: ascii_def NL_def)
  then have h: "NL \<notin> set (graph_row graphNodes (\<lambda>col. snd col))"
    by (simp add: graph_row_cells graph_cells_newline_free)
  have f: "NL \<notin> set (ascii ''('' @ decimal (length graphNodes) @ ascii '' nodes)'')"
    by (simp add: decimal_newline_free) (simp add: ascii_def NL_def)
  show ?thesis
    using h f block_lines_newline_free [OF assms, of graphNodes]
    by (auto simp: graph_lines_def graph_rule_newline_free neo4j_not_NL)
qed

lemma formatAsGraphTable_lines:
  assumes "graphNodes \<noteq> []" "\<forall>node\<in>set graphNodes. newline_free_node node"
  shows "split_on NL (formatAsGraphTable regularTable graphNodes (Some NEO4J_GRAPH))
         = graph_lines graphNodes @ [[]]"
  using assms(1) graph_lines_newline_free [OF assms(2)]
  by (simp add: formatAsGraphTable_concat split_on_concat_lines)



text \<open>
  What the code computes for a column width (\<open>col_width_Max\<close>): the header and, per node, the
  one value \<open>getNodeValue\<close> returns, which for properties and relationships is the first
  entry. C5 asks for every entry to be measured. For one node with the properties \<open>a\<close> and
  \<open>yield: 180 bu\<close> the Properties column gets width 12 (from the header), not the 15 the
  second entry needs, and that entry is drawn cut to \<open>yield: 18\<close> and an ellipsis: this is
  the fifth line of the output.
\<close>

theorem later_entries_not_measured:
  "col_width
     [\<lparr>node_id = None, labels = Some (ascii ''[:Crop]''), name = Some (ascii ''Corn''),
        properties = Some [ascii ''a'', ascii ''yield: 180 bu''], relationships = Some []\<rparr>]
     (Key_properties, ascii ''Properties'') = 12
   \<and> max (length (ascii ''Properties''))
         (max (length (ascii ''a'')) (length (ascii ''yield: 180 bu''))) + 2 = 15
   \<and> node_lines
       [\<lparr>node_id = None, labels = Some (ascii ''[:Crop]''), name = Some (ascii ''Corn''),
        properties = Some [ascii ''a'', ascii ''yield: 180 bu''], relationships = Some []\<rparr>]
       \<lparr>node_id = None, labels = Some (ascii ''[:Crop]''), name = Some (ascii ''Corn''),
        properties = Some [ascii ''a'', ascii ''yield: 180 bu''], relationships = Some []\<rparr>
     = [[NEO4J_doubleVertical] @ ascii '' [:Crop] '' @ [NEO4J_vertical] @ ascii '' Corn ''
        @ [NEO4J_vertical] @ ascii '' a          '' @ [NEO4J_vertical]
        @ ascii ''               '' @ [NEO4J_doubleVertical],
        [NEO4J_doubleVertical] @ ascii ''         '' @ [NEO4J_vertical] @ ascii ''      ''
        @ [NEO4J_vertical] @ ascii '' yield: 18'' @ [ELLIPSIS] @ ascii '' '' @ [NEO4J_vertical]
        @ ascii ''               '' @ [NEO4J_doubleVertical]]
   \<and> split_on NL (formatAsGraphTable []
       [\<lparr>node_id = None, labels = Some (ascii ''[:Crop]''), name = Some (ascii ''Corn''),
        properties = Some [ascii ''a'', ascii ''yield: 180 bu''], relationships = Some []\<rparr>]
       (Some NEO4J_GRAPH)) ! 4
     = [NEO4J_doubleVertical] @ ascii ''         '' @ [NEO4J_vertical] @ ascii ''      ''
       @ [NEO4J_vertical] @ ascii '' yield: 18'' @ [ELLIPSIS] @ ascii '' '' @ [NEO4J_vertical]
       @ ascii ''               '' @ [NEO4J_doubleVertical]"
proof -
  let ?n = "\<lparr>node_id = None, labels = Some (ascii ''[:Crop]''), name = Some (ascii ''Corn''),
        properties = Some [ascii ''a'', ascii ''yield: 180 bu''], relationships = Some []\<rparr>"
  have w: "col_width [?n] (Key_labels, ascii ''Labels'') = 9"
    "col_width [?n] (Key_name, ascii ''Name'') = 6"
    "col_width [?n] (Key_properties, ascii ''Properties'') = 12"
    "col_width [?n] (Key_relationships, ascii ''Relationships'') = 15"
    by (simp_all add: col_width_def getNodeValue_def or_default_def ascii_def)
  have m: "maxLines ?n = 2"
    by (simp add: maxLines_def length_or_1_def)
  have u: "[0..<2] = [0, 1]"
    by (simp add: upt_rec numeral_2_eq_2)
  have l: "node_lines [?n] ?n
     = [graph_cells [?n] (ascii ''[:Crop]'') (ascii ''Corn'') (ascii ''a'') [],
        graph_cells [?n] [] [] (ascii ''yield: 180 bu'') []]"
    by (simp add: node_lines_def m u graph_row_cells line_value_def getNodeValue_def
        or_default_def entry_def) (simp add: ascii_def)
  have c: "graph_cells [?n] (ascii ''[:Crop]'') (ascii ''Corn'') (ascii ''a'') []
     = [NEO4J_doubleVertical] @ ascii '' [:Crop] '' @ [NEO4J_vertical] @ ascii '' Corn ''
        @ [NEO4J_vertical] @ ascii '' a          '' @ [NEO4J_vertical]
        @ ascii ''               '' @ [NEO4J_doubleVertical]"
    "graph_cells [?n] [] [] (ascii ''yield: 180 bu'') []
     = [NEO4J_doubleVertical] @ ascii ''         '' @ [NEO4J_vertical] @ ascii ''      ''
        @ [NEO4J_vertical] @ ascii '' yield: 18'' @ [ELLIPSIS] @ ascii '' '' @ [NEO4J_vertical]
        @ ascii ''               '' @ [NEO4J_doubleVertical]"
    by (simp_all add: graph_cells_def cell_width_def w padString_def padEnd_def)
      (simp_all add: ascii_def SP_def eval_nat_numeral)
  have nf: "\<forall>node\<in>set [?n]. newline_free_node node"
    by (simp add: newline_free_node_def ascii_def NL_def)
  have "split_on NL (formatAsGraphTable [] [?n] (Some NEO4J_GRAPH)) ! 4
      = node_lines [?n] ?n ! 1"
    using formatAsGraphTable_lines [OF _ nf, of "[]"]
    by (simp add: graph_lines_def l)
  then have o: "split_on NL (formatAsGraphTable [] [?n] (Some NEO4J_GRAPH)) ! 4
      = graph_cells [?n] [] [] (ascii ''yield: 180 bu'') []"
    by (simp add: l)
  show ?thesis unfolding o l c using w(3) by (simp add: ascii_def)
qed

text \<open>
  The input of the theorem is one the graph branch takes (graph display format, one node), and
  the cut entry is in its output.
\<close>

theorem later_entries_not_measured_witness:
  "\<not> (Some NEO4J_GRAPH \<noteq> Some NEO4J_GRAPH
        \<or> length [\<lparr>node_id = None, labels = Some (ascii ''[:Crop]''), name = Some (ascii ''Corn''),
        properties = Some [ascii ''a'', ascii ''yield: 180 bu''], relationships = Some []\<rparr>] = 0)
   \<and> col_width
       [\<lparr>node_id = None, labels = Some (ascii ''[:Crop]''), name = Some (ascii ''Corn''),
        properties = Some [ascii ''a'', ascii ''yield: 180 bu''], relationships = Some []\<rparr>]
       (Key_properties, ascii ''Properties'') = 12
   \<and> split_on NL (formatAsGraphTable []
       [\<lparr>node_id = None, labels = Some (ascii ''[:Crop]''), name = Some (ascii ''Corn''),
        properties = Some [ascii ''a'', ascii ''yield: 180 bu''], relationships = Some []\<rparr>]
       (Some NEO4J_GRAPH)) ! 4
     = [NEO4J_doubleVertical] @ ascii ''         '' @ [NEO4J_vertical] @ ascii ''      ''
       @ [NEO4J_vertical] @ ascii '' yield: 18'' @ [ELLIPSIS] @ ascii '' '' @ [NEO4J_vertical]
       @ ascii ''               '' @ [NEO4J_doubleVertical]"
  using later_entries_not_measured by simp



end
